theory Spec2Isabelle
  imports Complex_Main
begin

section \<open>JavaScript values\<close>

text \<open>
  The values that flow between the model, the tool executor and the chat controller are
  JSON-like. An object is the list of its own enumerable properties in enumeration order.
  Numbers are modelled as reals: \<open>NaN\<close> and the infinities are not values of \<open>jsval\<close>, and
  a numeric parse that yields \<open>NaN\<close> is \<open>None\<close> where it occurs.
\<close>

datatype jsval =
    JUndefined
  | JNull
  | JBool bool
  | JNum real
  | JStr string
  | JArr "jsval list"
  | JObj "(string \<times> jsval) list"

type_synonym jsobj = "(string \<times> jsval) list"

datatype js_error = TypeError string | Error string

fun err_message :: "js_error \<Rightarrow> string" where
  "err_message (TypeError m) = m"
| "err_message (Error m) = m"

text \<open>ToBoolean: what \<open>if (v)\<close>, \<open>!v\<close> and \<open>v || d\<close> test.\<close>

fun truthy :: "jsval \<Rightarrow> bool" where
  "truthy JUndefined = False"
| "truthy JNull = False"
| "truthy (JBool b) = b"
| "truthy (JNum r) = (r \<noteq> 0)"
| "truthy (JStr s) = (s \<noteq> [])"
| "truthy (JArr xs) = True"
| "truthy (JObj kvs) = True"

text \<open>\<open>o[k]\<close> on an object: the property's value, \<open>undefined\<close> when it has none.\<close>

definition obj_get :: "jsobj \<Rightarrow> string \<Rightarrow> jsval" where
  "obj_get ob k = (case map_of ob k of None \<Rightarrow> JUndefined | Some v \<Rightarrow> v)"

text \<open>
  \<open>v?.k\<close> for the keys read by the orchestrator (\<open>_chartType\<close>, \<open>_playVideo\<close>): only an
  object can carry them.
\<close>

fun opt_get :: "jsval \<Rightarrow> string \<Rightarrow> jsval" where
  "opt_get (JObj kvs) k = obj_get kvs k"
| "opt_get v k = JUndefined"

fun digit_char :: "nat \<Rightarrow> char" where
  "digit_char n = char_of (48 + n mod 10)"

fun string_of_nat :: "nat \<Rightarrow> string" where
  "string_of_nat n = (if n < 10 then [digit_char n] else string_of_nat (n div 10) @ [digit_char n])"

declare string_of_nat.simps [simp del]

text \<open>
  The own enumerable properties a rest pattern \<open>{ k, ...rest } = v\<close> copies: those of an
  object, the indices of an array or of a string; a number or a boolean has none.
\<close>

fun own_entries :: "jsval \<Rightarrow> jsobj" where
  "own_entries (JObj kvs) = kvs"
| "own_entries (JArr xs) = zip (map string_of_nat [0..<length xs]) xs"
| "own_entries (JStr s) = zip (map string_of_nat [0..<length s]) (map (\<lambda>c. JStr [c]) s)"
| "own_entries v = []"

section \<open>Strings\<close>

text \<open>
  A string is a list of 8-bit characters. Case mapping and white space are those of ASCII;
  the white space \<open>trim\<close> removes is tab, line feed, vertical tab, form feed, carriage
  return and space.
\<close>

definition is_space :: "char \<Rightarrow> bool" where
  "is_space c = (c \<in> set [CHR 0x09, CHR 0x0A, CHR 0x0B, CHR 0x0C, CHR 0x0D, CHR '' ''])"

definition trim :: "string \<Rightarrow> string" where
  "trim s = rev (dropWhile is_space (rev (dropWhile is_space s)))"

definition lower_char :: "char \<Rightarrow> char" where
  "lower_char c =
     (if (65::nat) \<le> of_char c \<and> (of_char c :: nat) \<le> 90 then char_of (of_char c + (32::nat)) else c)"

definition toLowerCase :: "string \<Rightarrow> string" where
  "toLowerCase s = map lower_char s"

primrec starts_with :: "string \<Rightarrow> string \<Rightarrow> bool" where
  "starts_with [] s = True"
| "starts_with (p # ps) s = (case s of [] \<Rightarrow> False | c # cs \<Rightarrow> p = c \<and> starts_with ps cs)"

text \<open>\<open>s.includes(t)\<close>: \<open>t\<close> occurs in \<open>s\<close> as a substring.\<close>

primrec includes_str :: "string \<Rightarrow> string \<Rightarrow> bool" where
  "includes_str [] t = (t = [])"
| "includes_str (c # cs) t = (starts_with t (c # cs) \<or> includes_str cs t)"

text \<open>\<open>s.split(c)\<close> for a one-character separator: always at least one piece.\<close>

primrec split_on :: "char \<Rightarrow> string \<Rightarrow> string list" where
  "split_on c [] = [[]]"
| "split_on c (x # xs) =
     (if x = c then [] # split_on c xs
      else (case split_on c xs of [] \<Rightarrow> [[x]] | p # ps \<Rightarrow> (x # p) # ps))"

text \<open>\<open>xs.join(sep)\<close> on a list of strings.\<close>

fun join :: "string \<Rightarrow> string list \<Rightarrow> string" where
  "join sep [] = []"
| "join sep [x] = x"
| "join sep (x # y # ys) = x @ sep @ join sep (y # ys)"

text \<open>
  \<open>s.replace(/^"|"$/g, '')\<close>: a double quote at the very start is removed, and so is one at
  the very end of what is left.
\<close>

definition strip_quotes :: "string \<Rightarrow> string" where
  "strip_quotes s =
     (let s1 = (case s of [] \<Rightarrow> [] | c # cs \<Rightarrow> if c = CHR 0x22 then cs else s)
      in if s1 \<noteq> [] \<and> last s1 = CHR 0x22 then butlast s1 else s1)"

section \<open>Objects as ordered property lists\<close>

text \<open>
  Property enumeration order: keys that are array indices (canonical decimal numerals below
  \<open>2^32 - 1\<close>) come first, ascending; the other keys follow in the order they were created.
  (The accessor \<open>__proto__\<close> that ordinary objects inherit is not modelled: every key is an
  own data property.)
\<close>

definition is_digit :: "char \<Rightarrow> bool" where
  "is_digit c = ((48::nat) \<le> of_char c \<and> (of_char c :: nat) \<le> 57)"

definition digit_val :: "char \<Rightarrow> int" where
  "digit_val c = of_char c - 48"

definition int_of_digits :: "string \<Rightarrow> int" where
  "int_of_digits s = foldl (\<lambda>n c. 10 * n + digit_val c) 0 s"

definition is_array_index :: "string \<Rightarrow> bool" where
  "is_array_index k =
     (k \<noteq> [] \<and> list_all is_digit k \<and> (k = ''0'' \<or> hd k \<noteq> CHR ''0'') \<and>
      int_of_digits k < 4294967295)"

fun insert_index :: "string \<Rightarrow> jsval \<Rightarrow> jsobj \<Rightarrow> jsobj" where
  "insert_index k v [] = [(k, v)]"
| "insert_index k v ((k', v') # rest) =
     (if is_array_index k' \<and> int_of_digits k' < int_of_digits k
      then (k', v') # insert_index k v rest
      else (k, v) # (k', v') # rest)"

text \<open>\<open>ob[k] = v\<close>: an existing property keeps its place; a new one is placed by the order.\<close>

definition obj_set :: "jsobj \<Rightarrow> string \<Rightarrow> jsval \<Rightarrow> jsobj" where
  "obj_set ob k v =
     (if k \<in> fst ` set ob then map (\<lambda>kv. if fst kv = k then (k, v) else kv) ob
      else if is_array_index k then insert_index k v ob
      else ob @ [(k, v)])"

text \<open>\<open>Object.keys(ob)\<close>\<close>

definition keys :: "jsobj \<Rightarrow> string list" where
  "keys ob = map fst ob"

section \<open>CSV parsing (parseLine, parseCsvToRows)\<close>

text \<open>
  The loop of parseLine over the characters of the line: \<open>current\<close>, \<open>inQuotes\<close> and
  \<open>result\<close> are its variables; the last field is pushed after the loop.
\<close>

fun parseLine_loop :: "string \<Rightarrow> string \<Rightarrow> bool \<Rightarrow> string list \<Rightarrow> string list" where
  "parseLine_loop [] current inQuotes result = result @ [trim current]"
| "parseLine_loop (ch # rest) current inQuotes result =
     (if ch = CHR 0x22 then parseLine_loop rest current (\<not> inQuotes) result
      else if ch = CHR '','' \<and> \<not> inQuotes then parseLine_loop rest [] inQuotes (result @ [trim current])
      else parseLine_loop rest (current @ [ch]) inQuotes result)"

definition parseLine :: "string \<Rightarrow> string list" where
  "parseLine line = parseLine_loop line [] False []"

record table =
  headers :: "string list"
  rows :: "jsobj list"

text \<open>\<open>vals[i] || ''\<close>\<close>

definition field_or_empty :: "string list \<Rightarrow> nat \<Rightarrow> string" where
  "field_or_empty vals i = (if i < length vals then vals ! i else [])"

text \<open>The row object of one line: \<open>headers.forEach((h, i) => { obj[h] = ... })\<close>.\<close>

definition row_of_line :: "string list \<Rightarrow> string \<Rightarrow> jsobj" where
  "row_of_line hs line =
     (let vals = parseLine line
      in foldl (\<lambda>obj hi. obj_set obj (fst hi) (JStr (strip_quotes (field_or_empty vals (snd hi)))))
           [] (zip hs [0..<length hs]))"

definition nonblank_lines :: "string \<Rightarrow> string list" where
  "nonblank_lines text = filter (\<lambda>l. trim l \<noteq> []) (split_on CHR 0x0A text)"

definition parseCsvToRows :: "string \<Rightarrow> table" where
  "parseCsvToRows text =
     (let lines = nonblank_lines text
      in if length lines < 2 then \<lparr>headers = [], rows = []\<rparr>
         else (let hs = map strip_quotes (parseLine (hd lines))
               in \<lparr>headers = hs, rows = map (row_of_line hs) (tl lines)\<rparr>))"

section \<open>Writing CSV (for the statements about quoted fields)\<close>

text \<open>
  What it means for a CSV text to have quoted fields, as the specification speaks of them:
  a field is written bare or between double quotes, a record is its fields joined by
  commas, a text is its records joined by line feeds. A bare field contains no comma, no
  double quote and no line feed; a quoted field contains no double quote.
\<close>

datatype csv_field = Bare string | Quoted string

fun field_text :: "csv_field \<Rightarrow> string" where
  "field_text (Bare s) = s"
| "field_text (Quoted s) = s"

fun write_field :: "csv_field \<Rightarrow> string" where
  "write_field (Bare s) = s"
| "write_field (Quoted s) = CHR 0x22 # s @ [CHR 0x22]"

fun wf_field :: "csv_field \<Rightarrow> bool" where
  "wf_field (Bare s) = (CHR '','' \<notin> set s \<and> CHR 0x22 \<notin> set s \<and> CHR 0x0A \<notin> set s)"
| "wf_field (Quoted s) = (CHR 0x22 \<notin> set s)"

definition one_line :: "csv_field \<Rightarrow> bool" where
  "one_line f = (CHR 0x0A \<notin> set (field_text f))"

definition write_record :: "csv_field list \<Rightarrow> string" where
  "write_record fs = join '','' (map write_field fs)"

definition write_csv :: "csv_field list list \<Rightarrow> string" where
  "write_csv recs = join [CHR 0x0A] (map write_record recs)"

section \<open>The host environment\<close>

text \<open>
  What the code takes from its host and from the network is a parameter of the model:
  \<open>parseFloat\<close> (\<open>None\<close> is \<open>NaN\<close>), the conversion of a number to a string and of a
  string to a number, the image-generation endpoint, the time value of \<open>new Date(v)\<close>
  (\<open>None\<close> is an invalid date), and the order in which \<open>Array.prototype.sort\<close> leaves an
  array when its comparator is not consistent (the language leaves that order to the
  implementation). An HTTP exchange either fails (\<open>fetch\<close> rejects) or gives a response
  with its \<open>ok\<close> flag and what \<open>res.json()\<close> resolves to.
\<close>

datatype http_json = NetworkError js_error | HttpJson bool "js_error + jsval"

record host =
  parseFloat :: "jsval \<Rightarrow> real option"
  number_toString :: "real \<Rightarrow> string"
  fetch_generate_image :: "jsobj \<Rightarrow> http_json"
  date_getTime :: "jsval \<Rightarrow> real option"
  string_toNumber :: "string \<Rightarrow> real option"
  sort_inconsistent :: "(jsobj \<Rightarrow> jsobj \<Rightarrow> real) \<Rightarrow> jsobj list \<Rightarrow> jsobj list"

text \<open>ToString, as \<open>String(v)\<close>, a template literal and a property key apply it.\<close>

fun to_string :: "host \<Rightarrow> jsval \<Rightarrow> string" where
  "to_string h JUndefined = ''undefined''"
| "to_string h JNull = ''null''"
| "to_string h (JBool b) = (if b then ''true'' else ''false'')"
| "to_string h (JNum r) = number_toString h r"
| "to_string h (JStr s) = s"
| "to_string h (JArr xs) =
     join '','' (map (\<lambda>x. if x = JUndefined \<or> x = JNull then [] else to_string h x) xs)"
| "to_string h (JObj kvs) = ''[object Object]''"

text \<open>\<open>xs.join(sep)\<close> on an array of values: \<open>null\<close> and \<open>undefined\<close> give the empty string.\<close>

definition js_join :: "host \<Rightarrow> string \<Rightarrow> jsval list \<Rightarrow> string" where
  "js_join h sep xs = join sep (map (\<lambda>x. if x = JUndefined \<or> x = JNull then [] else to_string h x) xs)"

text \<open>\<open>a || b\<close>\<close>

definition js_or :: "jsval \<Rightarrow> jsval \<Rightarrow> jsval" where
  "js_or a b = (if truthy a then a else b)"

text \<open>
  \<open>v.k\<close> for a key no string, array, number or boolean carries: reading it from \<open>null\<close> or
  \<open>undefined\<close> throws a TypeError.
\<close>

fun get_prop :: "jsval \<Rightarrow> string \<Rightarrow> js_error + jsval" where
  "get_prop JUndefined k =
     Inl (TypeError (''Cannot read properties of undefined (reading '' @ [CHR 0x27] @ k @ [CHR 0x27] @ '')''))"
| "get_prop JNull k =
     Inl (TypeError (''Cannot read properties of null (reading '' @ [CHR 0x27] @ k @ [CHR 0x27] @ '')''))"
| "get_prop (JObj kvs) k = Inr (obj_get kvs k)"
| "get_prop v k = Inr JUndefined"

text \<open>
  A host for the examples. Its \<open>parseFloat\<close> is the identity on numbers and reads a
  decimal literal (sign, digits, fraction, exponent) after leading white space from a
  string, ignoring what follows it; the literal \<open>Infinity\<close>, whose value is not a real, is
  not read. Its \<open>number_toString\<close> is exact on integers, its dates are the numbers
  themselves, its image endpoint always answers with the same small image, it reads a
  string as a number only when the string is blank or an unsigned integer, and its sort
  leaves an array as it is when the comparator is not consistent.
\<close>

definition pow10 :: "int \<Rightarrow> real" where
  "pow10 e = (if 0 \<le> e then 10 ^ nat e else 1 / 10 ^ nat (- e))"

definition parse_exponent :: "string \<Rightarrow> int" where
  "parse_exponent s =
     (case s of
        [] \<Rightarrow> 0
      | c # cs \<Rightarrow>
          if c = CHR ''e'' \<or> c = CHR ''E'' then
            (case cs of
               [] \<Rightarrow> 0
             | d # ds \<Rightarrow>
                 if d = CHR ''-'' then
                   (if takeWhile is_digit ds = [] then 0 else - int_of_digits (takeWhile is_digit ds))
                 else if d = CHR ''+'' then int_of_digits (takeWhile is_digit ds)
                 else int_of_digits (takeWhile is_digit cs))
          else 0)"

definition parse_unsigned :: "string \<Rightarrow> real option" where
  "parse_unsigned s =
     (let ip = takeWhile is_digit s;
          r = dropWhile is_digit s;
          fp = (case r of [] \<Rightarrow> [] | c # cs \<Rightarrow> if c = CHR ''.'' then takeWhile is_digit cs else []);
          r' = (case r of [] \<Rightarrow> [] | c # cs \<Rightarrow> if c = CHR ''.'' then dropWhile is_digit cs else r)
      in if ip = [] \<and> fp = [] then None
         else Some ((of_int (int_of_digits ip) + of_int (int_of_digits fp) / 10 ^ length fp)
                    * pow10 (parse_exponent r')))"

definition parse_decimal :: "string \<Rightarrow> real option" where
  "parse_decimal s =
     (case dropWhile is_space s of
        [] \<Rightarrow> None
      | c # cs \<Rightarrow>
          if c = CHR ''-'' then map_option uminus (parse_unsigned cs)
          else if c = CHR ''+'' then parse_unsigned cs
          else parse_unsigned (c # cs))"

fun sample_parseFloat :: "jsval \<Rightarrow> real option" where
  "sample_parseFloat (JNum r) = Some r"
| "sample_parseFloat (JStr s) = parse_decimal s"
| "sample_parseFloat v = None"

definition sample_number_toString :: "real \<Rightarrow> string" where
  "sample_number_toString r =
     (if r < 0 then CHR ''-'' # string_of_nat (nat \<lfloor>- r\<rfloor>) else string_of_nat (nat \<lfloor>r\<rfloor>))"

fun sample_date :: "jsval \<Rightarrow> real option" where
  "sample_date (JNum r) = Some r"
| "sample_date v = None"

definition sample_toNumber :: "string \<Rightarrow> real option" where
  "sample_toNumber s =
     (if trim s = [] then Some 0
      else if list_all is_digit (trim s) then Some (of_int (int_of_digits (trim s)))
      else None)"

definition sample_image :: jsval where
  "sample_image =
     JObj [(''mimeType'', JStr ''image/png''), (''data'', JStr ''iVBORw0KGgo=''),
           (''url'', JStr ''/generated/1.png''), (''fileName'', JStr ''1.png'')]"

definition sample_host :: host where
  "sample_host =
     \<lparr>parseFloat = sample_parseFloat,
      number_toString = sample_number_toString,
      fetch_generate_image = (\<lambda>body. HttpJson True (Inr sample_image)),
      date_getTime = sample_date,
      string_toNumber = sample_toNumber,
      sort_inconsistent = (\<lambda>cmp xs. xs)\<rparr>"

section \<open>Numbers\<close>

text \<open>
  \<open>+x.toFixed(d)\<close>: the multiple of \<open>10^-d\<close> nearest to \<open>x\<close>, the one of larger magnitude on a
  tie; from \<open>10^21\<close> on, \<open>toFixed\<close> prints the number itself. \<open>Math.round\<close> rounds a tie
  upwards.
\<close>

definition toFixed_num :: "nat \<Rightarrow> real \<Rightarrow> real" where
  "toFixed_num d x =
     (if 10 ^ 21 \<le> \<bar>x\<bar> then x
      else sgn x * (of_int \<lfloor>\<bar>x\<bar> * 10 ^ d + 1 / 2\<rfloor> / 10 ^ d))"

definition fmt :: "real \<Rightarrow> real" where
  "fmt n = toFixed_num 4 n"

definition math_round :: "real \<Rightarrow> real" where
  "math_round x = of_int \<lfloor>x + 1 / 2\<rfloor>"

text \<open>\<open>Math.sqrt\<close>, as a real. It is not computed by evaluation.\<close>

definition math_sqrt :: "real \<Rightarrow> real" where
  "math_sqrt x = sqrt x"

declare math_sqrt_def [code del]

section \<open>Engagement (enrichWithEngagement)\<close>

text \<open>\<open>/likeCount/i.test(h)\<close> and the like: the pattern occurs in \<open>h\<close>, whatever the case.\<close>

definition test_ci :: "string \<Rightarrow> string \<Rightarrow> bool" where
  "test_ci pattern h = includes_str (toLowerCase h) (toLowerCase pattern)"

text \<open>The engagement of one row, in the copy of src/unnamed/part_002.\<close>

definition engagement_of :: "host \<Rightarrow> string \<Rightarrow> string \<Rightarrow> jsobj \<Rightarrow> jsval" where
  "engagement_of h likeCol viewCol r =
     (case (parseFloat h (obj_get r likeCol), parseFloat h (obj_get r viewCol)) of
        (Some likes, Some views) \<Rightarrow>
          if views > 0 then JNum (toFixed_num 6 (likes / views)) else JNull
      | _ \<Rightarrow> JNull)"

definition enrichWithEngagement :: "host \<Rightarrow> jsobj list \<Rightarrow> string list \<Rightarrow> table" where
  "enrichWithEngagement h rs hs =
     (if rs = [] then \<lparr>headers = hs, rows = rs\<rparr>
      else
        (case (find (test_ci ''likeCount'') hs, find (test_ci ''viewCount'') hs) of
           (Some likeCol, Some viewCol) \<Rightarrow>
             if likeCol = [] \<or> viewCol = [] then \<lparr>headers = hs, rows = rs\<rparr>
             else if ''engagement'' \<in> set hs then \<lparr>headers = hs, rows = rs\<rparr>
             else \<lparr>headers = hs @ [''engagement''],
                   rows = map (\<lambda>r. obj_set r ''engagement'' (engagement_of h likeCol viewCol r)) rs\<rparr>
         | _ \<Rightarrow> \<lparr>headers = hs, rows = rs\<rparr>))"

text \<open>
  The copy of src/unnamed/part_001: \<open>parseFloat(x) || 0\<close> reads a missing or unparsable
  count as 0, the column is set in every row, and no rows give an empty table.
\<close>

definition num_or_0 :: "real option \<Rightarrow> real" where
  "num_or_0 v = (case v of None \<Rightarrow> 0 | Some x \<Rightarrow> x)"

definition engagement_of_alt :: "host \<Rightarrow> jsobj \<Rightarrow> jsval" where
  "engagement_of_alt h row =
     (let viewCount = num_or_0 (parseFloat h (obj_get row ''viewCount''));
          likeCount = num_or_0 (parseFloat h (obj_get row ''likeCount''))
      in JNum (if viewCount > 0 then likeCount / viewCount else 0))"

definition enrichWithEngagement_alt :: "host \<Rightarrow> jsobj list \<Rightarrow> string list \<Rightarrow> table" where
  "enrichWithEngagement_alt h rs hs =
     (if rs = [] then \<lparr>headers = [], rows = []\<rparr>
      else \<lparr>headers = (if ''engagement'' \<in> set hs then hs else hs @ [''engagement'']),
            rows = map (\<lambda>row. obj_set row ''engagement'' (engagement_of_alt h row)) rs\<rparr>)"

section \<open>Column statistics (compute_column_stats, compute_stats_json)\<close>

text \<open>
  resolveCol: the header that the requested name means. The name comes from the model's
  arguments and can be any value; \<open>norm\<close> (here \<open>norm_col\<close>) calls \<open>toLowerCase\<close> on it, which only a string
  has.
\<close>

definition norm_col :: "string \<Rightarrow> string" where
  "norm_col s = filter (\<lambda>c. \<not> is_space c \<and> c \<noteq> CHR ''_'' \<and> c \<noteq> CHR ''-'') (toLowerCase s)"

definition resolveCol :: "jsobj list \<Rightarrow> jsval \<Rightarrow> js_error + jsval" where
  "resolveCol rs name =
     (if rs = [] \<or> \<not> truthy name then Inr name
      else
        (case name of
           JStr n \<Rightarrow>
             if n \<in> set (keys (hd rs)) then Inr name
             else (case find (\<lambda>k. norm_col k = norm_col n) (keys (hd rs)) of
                     Some k \<Rightarrow> if k \<noteq> [] then Inr (JStr k) else Inr name
                   | None \<Rightarrow> Inr name)
         | _ \<Rightarrow> Inl (TypeError ''s.toLowerCase is not a function'')))"

text \<open>\<open>rows.map((r) => parseFloat(r[col])).filter((v) => !isNaN(v))\<close>\<close>

definition numericValues :: "host \<Rightarrow> jsobj list \<Rightarrow> jsval \<Rightarrow> real list" where
  "numericValues h rs col = List.map_filter (\<lambda>r. parseFloat h (obj_get r (to_string h col))) rs"

definition median :: "real list \<Rightarrow> real" where
  "median srt =
     (if length srt mod 2 = 0
      then (srt ! (length srt div 2 - 1) + srt ! (length srt div 2)) / 2
      else srt ! (length srt div 2))"

text \<open>
  The body shared by the cases compute_column_stats (\<open>label\<close> is \<open>column\<close>) and
  compute_stats_json (\<open>label\<close> is \<open>field\<close>) in src/unnamed/part_002, from the requested name.
\<close>

definition column_stats :: "host \<Rightarrow> string \<Rightarrow> jsobj list \<Rightarrow> string list \<Rightarrow> jsval \<Rightarrow> js_error + jsval" where
  "column_stats h label safeRows availableHeaders name =
     (case resolveCol safeRows name of
        Inl e \<Rightarrow> Inl e
      | Inr col \<Rightarrow>
          (let vals = numericValues h safeRows col
           in if vals = [] then
                Inr (JObj [(''error'', JStr (''No numeric values found in '' @ label @ '' '' @ [CHR 0x22]
                             @ to_string h col @ [CHR 0x22] @ ''. Available columns: ''
                             @ join '', '' availableHeaders))])
              else
                (let mean = foldl (+) 0 vals / real (length vals);
                     srt = sort vals;
                     variance = foldl (\<lambda>a b. a + (b - mean) ^ 2) 0 vals / real (length vals)
                 in Inr (JObj [(label, col),
                               (''count'', JNum (real (length vals))),
                               (''mean'', JNum (fmt mean)),
                               (''median'', JNum (fmt (median srt))),
                               (''std'', JNum (fmt (math_sqrt variance))),
                               (''min'', JNum (foldl min (hd vals) (tl vals))),
                               (''max'', JNum (foldl max (hd vals) (tl vals)))]))))"

text \<open>
  The case compute_stats_json of src/unnamed/part_001: the field is chosen by keyword, mean
  and std are rounded to 2 decimals with \<open>Math.round\<close>, and the error names no column.
\<close>

definition stat_field :: "string \<Rightarrow> string" where
  "stat_field f =
     (if includes_str f ''view'' then ''viewCount''
      else if includes_str f ''like'' then ''likeCount''
      else if includes_str f ''comment'' then ''commentCount''
      else if includes_str f ''engage'' then ''engagement''
      else f)"

definition compute_stats_json_alt :: "host \<Rightarrow> jsval \<Rightarrow> jsobj list \<Rightarrow> js_error + jsval" where
  "compute_stats_json_alt h args rs =
     (case get_prop args ''field'' of
        Inl e \<Rightarrow> Inl e
      | Inr f \<Rightarrow>
          (let statField = stat_field (toLowerCase (to_string h (js_or f (JStr ''viewCount''))));
               values = sort (List.map_filter (\<lambda>r. parseFloat h (obj_get r statField)) rs)
           in if values = [] then Inr (JObj [(''error'', JStr (''No numeric data for '' @ statField))])
              else
                (let total = foldl (+) 0 values;
                     mean = total / real (length values);
                     variance = foldl (\<lambda>acc val. acc + (val - mean) ^ 2) 0 values / real (length values);
                     std = math_sqrt variance
                 in Inr (JObj [(''field'', JStr statField),
                               (''count'', JNum (real (length values))),
                               (''mean'', JNum (math_round (mean * 100) / 100)),
                               (''median'', JNum (median values)),
                               (''std'', JNum (math_round (std * 100) / 100)),
                               (''min'', JNum (hd values)),
                               (''max'', JNum (last values))]))))"

section \<open>Image generation (the generateImage case of executeTool)\<close>

text \<open>
  The case in src/unnamed/part_002. The promise chain \<open>fetch(...).then(...).catch(...)\<close>
  turns every failure into an error object: \<open>generateImage_settled\<close> is what the chain
  resolves to for an outcome of the fetch.
\<close>

definition generateImage_settled :: "string \<Rightarrow> jsval \<Rightarrow> http_json \<Rightarrow> jsval" where
  "generateImage_settled prompt anchorImage outcome =
     (let failed = (\<lambda>e. JObj [(''error'', JStr (''Image generation failed: '' @ err_message e))])
      in (case outcome of
            NetworkError e \<Rightarrow> failed e
          | HttpJson ok body \<Rightarrow>
              if \<not> ok then failed (Error ''Backend image proxy failed'')
              else
                (case body of
                   Inl e \<Rightarrow> failed e
                 | Inr data \<Rightarrow>
                     (case get_prop data ''mimeType'' of
                        Inl e \<Rightarrow> failed e
                      | Inr mimeType \<Rightarrow>
                          JObj [(''inlineData'',
                                   JObj [(''mimeType'', mimeType), (''data'', opt_get data ''data'')]),
                                (''_chartType'', JStr ''generatedImage''),
                                (''prompt'', JStr prompt),
                                (''anchorUsed'', JBool (truthy anchorImage)),
                                (''url'', opt_get data ''url''),
                                (''fileName'', opt_get data ''fileName''),
                                (''message'', JStr ''Generated image preview ready.'')]))))"

definition generateImage :: "host \<Rightarrow> jsobj \<Rightarrow> jsobj \<Rightarrow> jsval" where
  "generateImage h args context =
     (let prompt = trim (to_string h (js_or (obj_get args ''prompt'') (JStr [])))
      in if prompt = [] then JObj [(''error'', JStr ''prompt is required for generateImage'')]
         else
           (let anchorImage = js_or (js_or (obj_get args ''anchor_image'') (obj_get context ''anchorImage'')) JNull
            in generateImage_settled prompt anchorImage
                 (fetch_generate_image h [(''prompt'', JStr prompt), (''anchorImage'', anchorImage)])))"

text \<open>
  The case in src/unnamed/part_001: the whole body is inside \<open>try\<close>, and the image bytes
  are returned under the key \<open>data\<close>.
\<close>

definition generateImage_alt :: "host \<Rightarrow> jsval \<Rightarrow> jsobj \<Rightarrow> jsval" where
  "generateImage_alt h args context =
     (let failed = (\<lambda>e. JObj [(''error'', JStr (''Image generation failed: '' @ err_message e))])
      in (case get_prop args ''prompt'' of
            Inl e \<Rightarrow> failed e
          | Inr p \<Rightarrow>
              (let prompt = js_or p (JStr ''A cool image'')
               in (case fetch_generate_image h
                          [(''prompt'', prompt),
                           (''anchorImage'', js_or (obj_get context ''anchorImage'') JNull)] of
                     NetworkError e \<Rightarrow> failed e
                   | HttpJson ok body \<Rightarrow>
                       (case body of
                          Inl e \<Rightarrow> failed e
                        | Inr data \<Rightarrow>
                            if \<not> ok then
                              (case get_prop data ''error'' of
                                 Inl e \<Rightarrow> failed e
                               | Inr err \<Rightarrow>
                                   failed (Error (to_string h (js_or err (JStr ''Failed to fetch image'')))))
                            else
                              (case get_prop data ''data'' of
                                 Inl e \<Rightarrow> failed e
                               | Inr d \<Rightarrow>
                                   JObj [(''_chartType'', JStr ''generatedImage''),
                                         (''data'', d),
                                         (''mimeType'', opt_get data ''mimeType''),
                                         (''url'', opt_get data ''url''),
                                         (''prompt'', prompt),
                                         (''fileName'', opt_get data ''fileName'')]))))))"

section \<open>The other tools of executeTool (src/unnamed/part_002)\<close>

text \<open>
  ToNumber and ToIntegerOrInfinity, as \<open>slice\<close> applies them to its end index, and
  \<open>xs.slice(0, n)\<close> itself: a negative end counts from the end of the array.
\<close>

fun to_number :: "host \<Rightarrow> jsval \<Rightarrow> real option" where
  "to_number h JUndefined = None"
| "to_number h JNull = Some 0"
| "to_number h (JBool b) = Some (if b then 1 else 0)"
| "to_number h (JNum r) = Some r"
| "to_number h (JStr s) = string_toNumber h s"
| "to_number h (JArr xs) = string_toNumber h (to_string h (JArr xs))"
| "to_number h (JObj kvs) = string_toNumber h (to_string h (JObj kvs))"

definition to_integer :: "real option \<Rightarrow> int" where
  "to_integer v = (case v of None \<Rightarrow> 0 | Some r \<Rightarrow> if 0 \<le> r then \<lfloor>r\<rfloor> else \<lceil>r\<rceil>)"

definition slice_to :: "host \<Rightarrow> jsval \<Rightarrow> 'a list \<Rightarrow> 'a list" where
  "slice_to h n xs =
     (let relEnd = to_integer (to_number h n)
      in if relEnd < 0 then take (nat (max (int (length xs) + relEnd) 0)) xs
         else take (nat (min relEnd (int (length xs)))) xs)"

text \<open>
  \<open>xs.sort(cmp)\<close> where \<open>cmp\<close> is the difference of a numeric key and gives 0 when a key is
  missing (\<open>NaN\<close>): with every key present the sort is the stable sort by the key; with
  none present every comparison is 0 and the array stays as it is; otherwise the
  comparator is not consistent and the host decides.
\<close>

definition sort_by_key :: "host \<Rightarrow> (jsobj \<Rightarrow> real option) \<Rightarrow> bool \<Rightarrow> jsobj list \<Rightarrow> jsobj list" where
  "sort_by_key h key ascending xs =
     (if list_all (\<lambda>x. key x \<noteq> None) xs then
        sort_key (\<lambda>x. if ascending then the (key x) else - the (key x)) xs
      else if list_all (\<lambda>x. key x = None) xs then xs
      else sort_inconsistent h
             (\<lambda>a b. case (key a, key b) of
                      (Some av, Some bv) \<Rightarrow> if ascending then av - bv else bv - av
                    | _ \<Rightarrow> 0) xs)"

text \<open>The regular expressions of the tools, on strings.\<close>

definition eq_ci :: "string \<Rightarrow> string \<Rightarrow> bool" where
  "eq_ci pattern s = (toLowerCase s = toLowerCase pattern)"

text \<open>\<open>/a.?b/\<close> at the start of \<open>t\<close>: the dot is any character but a line terminator.\<close>

definition match_opt_here :: "string \<Rightarrow> string \<Rightarrow> string \<Rightarrow> bool" where
  "match_opt_here a b t =
     (starts_with a t \<and>
      (let r = drop (length a) t
       in starts_with b r \<or>
          (case r of [] \<Rightarrow> False | c # cs \<Rightarrow> c \<noteq> CHR 0x0A \<and> c \<noteq> CHR 0x0D \<and> starts_with b cs)))"

primrec includes_opt :: "string \<Rightarrow> string \<Rightarrow> string \<Rightarrow> bool" where
  "includes_opt a b [] = match_opt_here a b []"
| "includes_opt a b (c # cs) = (match_opt_here a b (c # cs) \<or> includes_opt a b cs)"

text \<open>\<open>/favorite.?count/i.test(s)\<close> and the like.\<close>

definition test_opt_ci :: "string \<Rightarrow> string \<Rightarrow> string \<Rightarrow> bool" where
  "test_opt_ci a b s = includes_opt a b (toLowerCase s)"

text \<open>\<open>/^a\s*b$/\<close> and \<open>/^a\s*b/\<close> on a string.\<close>

definition match_spaced :: "string \<Rightarrow> string \<Rightarrow> string \<Rightarrow> bool" where
  "match_spaced a b s = (starts_with a s \<and> dropWhile is_space (drop (length a) s) = b)"

definition prefix_spaced :: "string \<Rightarrow> string \<Rightarrow> string \<Rightarrow> bool" where
  "prefix_spaced a b s = (starts_with a s \<and> starts_with b (dropWhile is_space (drop (length a) s)))"

text \<open>The case get_value_counts.\<close>

definition count_value :: "host \<Rightarrow> string \<Rightarrow> jsobj \<Rightarrow> jsobj \<Rightarrow> jsobj" where
  "count_value h col counts r =
     (let v = obj_get r col
      in if v \<noteq> JUndefined \<and> v \<noteq> JStr [] then
           obj_set counts (to_string h v)
             (JNum ((case js_or (obj_get counts (to_string h v)) (JNum 0) of JNum c \<Rightarrow> c | _ \<Rightarrow> 0) + 1))
         else counts)"

definition count_of :: "string \<times> jsval \<Rightarrow> real" where
  "count_of e = (case snd e of JNum c \<Rightarrow> c | _ \<Rightarrow> 0)"

definition get_value_counts :: "host \<Rightarrow> jsobj list \<Rightarrow> jsobj \<Rightarrow> js_error + jsval" where
  "get_value_counts h safeRows args =
     (case resolveCol safeRows (obj_get args ''column'') of
        Inl e \<Rightarrow> Inl e
      | Inr col \<Rightarrow>
          (let topN = js_or (obj_get args ''top_n'') (JNum 10);
               counts = foldl (count_value h (to_string h col)) [] safeRows;
               srt = slice_to h topN (sort_key (\<lambda>e. - count_of e) counts)
           in Inr (JObj [(''column'', col),
                         (''total_rows'', JNum (real (length safeRows))),
                         (''value_counts'', JObj (foldl (\<lambda>ob e. obj_set ob (fst e) (snd e)) [] srt))])))"

text \<open>The case get_top_items.\<close>

definition find_or :: "'a option \<Rightarrow> 'a option \<Rightarrow> 'a option" where
  "find_or a b = (case a of Some x \<Rightarrow> Some x | None \<Rightarrow> b)"

definition top_row :: "host \<Rightarrow> string option \<Rightarrow> string option \<Rightarrow> string option \<Rightarrow> bool \<Rightarrow>
    jsobj \<times> nat \<Rightarrow> jsval" where
  "top_row h textCol favCol viewCol engCol ri =
     (let r = fst ri;
          out0 = [(''rank'', JNum (real (snd ri + 1)))];
          out1 = (case textCol of
                    Some t \<Rightarrow> if t \<noteq> [] then
                                obj_set out0 ''text'' (JStr (take 150 (to_string h (js_or (obj_get r t) (JStr [])))))
                              else out0
                  | None \<Rightarrow> out0);
          out2 = (case favCol of
                    Some f \<Rightarrow> if f \<noteq> [] then obj_set out1 f (obj_get r f) else out1
                  | None \<Rightarrow> out1);
          out3 = (case viewCol of
                    Some v \<Rightarrow> if v \<noteq> [] then obj_set out2 v (obj_get r v) else out2
                  | None \<Rightarrow> out2);
          out4 = (if engCol then obj_set out3 ''engagement'' (obj_get r ''engagement'') else out3)
      in JObj out4)"

definition get_top_items :: "host \<Rightarrow> jsobj list \<Rightarrow> string list \<Rightarrow> jsobj \<Rightarrow> js_error + jsval" where
  "get_top_items h safeRows availableHeaders args =
     (case resolveCol safeRows (obj_get args ''sort_column'') of
        Inl e \<Rightarrow> Inl e
      | Inr resolved \<Rightarrow>
          (let sortCol = js_or resolved (obj_get args ''sort_column'');
               n = js_or (obj_get args ''n'') (JNum 10);
               asc = (case obj_get args ''ascending'' of
                        JUndefined \<Rightarrow> JBool False | JNull \<Rightarrow> JBool False | a \<Rightarrow> a);
               textCol = find_or (find (eq_ci ''title'') availableHeaders)
                           (find_or (find (eq_ci ''text'') availableHeaders)
                              (find (\<lambda>x. test_ci ''text'' x \<or> test_ci ''content'' x \<or>
                                          test_ci ''tweet'' x \<or> test_ci ''body'' x) availableHeaders));
               favCol = find_or (find (test_opt_ci ''favorite'' ''count'') availableHeaders)
                          (find (test_opt_ci ''like'' ''count'') availableHeaders);
               viewCol = find (test_opt_ci ''view'' ''count'') availableHeaders;
               engCol = (''engagement'' \<in> set availableHeaders);
               srt = sort_by_key h (\<lambda>r. parseFloat h (obj_get r (to_string h sortCol))) (truthy asc) safeRows;
               shown = slice_to h n srt;
               topRows = map (top_row h textCol favCol viewCol engCol) (zip shown [0..<length shown])
           in if topRows = [] then
                Inr (JObj [(''error'', JStr (''No rows found. Column '' @ [CHR 0x22] @ to_string h sortCol
                             @ [CHR 0x22] @ '' may not exist. Available: '' @ join '', '' availableHeaders))])
              else
                Inr (JObj [(''sort_column'', sortCol),
                           (''direction'', JStr (if truthy asc then ''ascending (lowest first)''
                                                 else ''descending (highest first)'')),
                           (''count'', JNum (real (length topRows))),
                           (''tweets'', JArr topRows)])))"

text \<open>The case plot_metric_vs_time.\<close>

definition data_point :: "host \<Rightarrow> string \<Rightarrow> string \<Rightarrow> jsobj \<Rightarrow> jsobj option" where
  "data_point h timeCol metricCol r =
     (case parseFloat h (obj_get r metricCol) of
        None \<Rightarrow> None
      | Some val \<Rightarrow>
          if \<not> truthy (obj_get r timeCol) then None
          else Some [(''time'', obj_get r timeCol), (''value'', JNum val)])"

definition plot_metric_vs_time :: "host \<Rightarrow> jsobj list \<Rightarrow> string list \<Rightarrow> jsobj \<Rightarrow> js_error + jsval" where
  "plot_metric_vs_time h safeRows availableHeaders args =
     (case resolveCol safeRows (obj_get args ''metric'') of
        Inl e \<Rightarrow> Inl e
      | Inr metricCol \<Rightarrow>
          (case resolveCol safeRows (obj_get args ''time_column'') of
             Inl e \<Rightarrow> Inl e
           | Inr timeCol \<Rightarrow>
               (let dataPoints =
                      sort_by_key h (\<lambda>d. date_getTime h (obj_get d ''time'')) True
                        (List.map_filter (data_point h (to_string h timeCol) (to_string h metricCol)) safeRows)
                in if dataPoints = [] then
                     Inr (JObj [(''error'', JStr (''No valid data points for '' @ [CHR 0x22]
                                  @ to_string h metricCol @ [CHR 0x22] @ '' vs '' @ [CHR 0x22]
                                  @ to_string h timeCol @ [CHR 0x22] @ ''. Available columns: ''
                                  @ join '', '' availableHeaders))])
                   else
                     Inr (JObj [(''_chartType'', JStr ''timeSeries''),
                                (''metric'', metricCol),
                                (''timeColumn'', timeCol),
                                (''data'', JArr (map (\<lambda>d. JObj (obj_set [(''name'', obj_get d ''time'')]
                                                                 (to_string h metricCol) (obj_get d ''value'')))
                                                  dataPoints)),
                                (''count'', JNum (real (length dataPoints)))]))))"

text \<open>
  The case play_video. \<open>safeRows.reduce\<close> keeps the first row with the largest count
  (\<open>parseFloat(x) || 0\<close>); the title search takes the first row whose title contains the
  query.
\<close>

definition max_row :: "host \<Rightarrow> string \<Rightarrow> jsobj list \<Rightarrow> jsobj" where
  "max_row h col rs =
     foldl (\<lambda>mx r. if num_or_0 (parseFloat h (obj_get r col)) > num_or_0 (parseFloat h (obj_get mx col))
                    then r else mx)
       (hd rs) (tl rs)"

text \<open>The choice of \<open>bestMatch\<close>: the special queries, then the search by title.\<close>

definition best_match ::
  "host \<Rightarrow> jsobj list \<Rightarrow> string \<Rightarrow> string \<Rightarrow> string option \<Rightarrow> string option \<Rightarrow> jsobj option" where
  "best_match h safeRows titleQuery tc viewCol likeCol =
     (if titleQuery \<in> set [''first'', ''1st'', ''one''] \<and> safeRows \<noteq> []
      then Some (hd safeRows)
      else if titleQuery \<in> set [''last'', ''latest''] \<and> safeRows \<noteq> []
      then Some (last safeRows)
      else if match_spaced ''most'' ''viewed'' titleQuery \<or>
              match_spaced ''most'' ''popular'' titleQuery \<or>
              match_spaced ''top'' ''video'' titleQuery \<or>
              match_spaced ''highest'' ''views'' titleQuery
      then (if safeRows = [] then None
            else (case viewCol of
                    Some vc \<Rightarrow> Some (max_row h vc safeRows)
                  | None \<Rightarrow> Some (hd safeRows)))
      else if prefix_spaced ''most'' ''liked'' titleQuery \<or>
              prefix_spaced ''most'' ''loved'' titleQuery \<or>
              prefix_spaced ''highest'' ''likes'' titleQuery \<or>
              prefix_spaced ''top'' ''liked'' titleQuery \<or>
              prefix_spaced ''most'' ''like'' titleQuery
      then (if safeRows = [] then None
            else (case likeCol of
                    Some lc \<Rightarrow> if lc \<noteq> [] then Some (max_row h lc safeRows)
                               else Some (hd safeRows)
                  | None \<Rightarrow> Some (hd safeRows)))
      else find (\<lambda>r. includes_str
                        (toLowerCase (to_string h (js_or (obj_get r tc) (JStr []))))
                        titleQuery) safeRows)"

text \<open>What is returned for the chosen row, if there is one.\<close>

definition play_result ::
  "host \<Rightarrow> jsobj list \<Rightarrow> jsobj \<Rightarrow> string \<Rightarrow> string \<Rightarrow> string option \<Rightarrow> jsobj option \<Rightarrow> jsval" where
  "play_result h safeRows args tc uc thumbCol bestMatch =
     (let notFound =
            JObj [(''error'', JStr (''No video found matching '' @ [CHR 0x22]
                    @ to_string h (obj_get args ''title'') @ [CHR 0x22] @ ''. Available: ''
                    @ js_join h '', '' (map (\<lambda>r. obj_get r tc) (take 3 safeRows))))]
      in (case bestMatch of
            None \<Rightarrow> notFound
          | Some m \<Rightarrow>
              if \<not> truthy (obj_get m tc) then notFound
              else if \<not> truthy (obj_get m uc) then
                JObj [(''error'', JStr (''Video '' @ [CHR 0x22] @ to_string h (obj_get m tc)
                        @ [CHR 0x22] @ '' found but missing URL.''))]
              else
                JObj [(''_playVideo'', JBool True),
                      (''title'', obj_get m tc),
                      (''thumbnailUrl'',
                         (case thumbCol of Some th \<Rightarrow> obj_get m th | None \<Rightarrow> JNull)),
                      (''url'', obj_get m uc),
                      (''message'', JStr (''Playing: '' @ [CHR 0x22]
                         @ to_string h (obj_get m tc) @ [CHR 0x22]))]))"

definition play_video :: "host \<Rightarrow> jsobj list \<Rightarrow> string list \<Rightarrow> jsobj \<Rightarrow> js_error + jsval" where
  "play_video h safeRows availableHeaders args =
     (case js_or (obj_get args ''title'') (JStr []) of
        JStr title \<Rightarrow>
          (let titleQuery = trim (toLowerCase title);
               titleCol = find (eq_ci ''title'') availableHeaders;
               urlCol = find (eq_ci ''videoUrl'') availableHeaders;
               thumbCol = find (eq_ci ''thumbnailUrl'') availableHeaders;
               viewCol = find (eq_ci ''viewCount'') availableHeaders;
               likeCol = find (test_opt_ci ''like'' ''count'') availableHeaders
           in (case (titleCol, urlCol) of
                 (Some tc, Some uc) \<Rightarrow>
                   Inr (play_result h safeRows args tc uc thumbCol
                          (best_match h safeRows titleQuery tc viewCol likeCol))
               | _ \<Rightarrow>
                   Inr (JObj [(''error'', JStr (''Cannot find required columns. Have: ''
                                @ join '', '' availableHeaders))])))
      | _ \<Rightarrow> Inl (TypeError ''toLowerCase is not a function''))"

section \<open>The tool executor (executeTool, src/unnamed/part_002)\<close>

text \<open>
  The rows argument is an array of row objects, or something that is not an array. The
  arguments come from the model: reading a property of \<open>null\<close> or \<open>undefined\<close> throws, and
  any other value is read as an object (the keys read are not those a string, an array, a
  number or a boolean has). The result \<open>Inl\<close> is a rejected promise.
\<close>

datatype rows_arg = NotAnArray | RowArray "jsobj list"

definition tool_args :: "jsval \<Rightarrow> js_error + jsobj" where
  "tool_args args =
     (case args of
        JUndefined \<Rightarrow> Inl (TypeError ''Cannot read properties of undefined'')
      | JNull \<Rightarrow> Inl (TypeError ''Cannot read properties of null'')
      | JObj kvs \<Rightarrow> Inr kvs
      | _ \<Rightarrow> Inr [])"

definition with_args :: "jsval \<Rightarrow> (jsobj \<Rightarrow> js_error + jsval) \<Rightarrow> js_error + jsval" where
  "with_args args f = (case tool_args args of Inl e \<Rightarrow> Inl e | Inr a \<Rightarrow> f a)"

definition executeTool :: "host \<Rightarrow> string \<Rightarrow> jsval \<Rightarrow> rows_arg \<Rightarrow> jsobj \<Rightarrow> js_error + jsval" where
  "executeTool h toolName args rs context =
     (let safeRows = (case rs of RowArray xs \<Rightarrow> xs | NotAnArray \<Rightarrow> []);
          availableHeaders = (if safeRows \<noteq> [] then keys (hd safeRows) else [])
      in if toolName = ''compute_column_stats'' then
           with_args args (\<lambda>a. column_stats h ''column'' safeRows availableHeaders (obj_get a ''column''))
         else if toolName = ''get_value_counts'' then
           with_args args (get_value_counts h safeRows)
         else if toolName = ''get_top_items'' then
           with_args args (get_top_items h safeRows availableHeaders)
         else if toolName = ''generateImage'' then
           with_args args (\<lambda>a. Inr (generateImage h a context))
         else if toolName = ''plot_metric_vs_time'' then
           with_args args (plot_metric_vs_time h safeRows availableHeaders)
         else if toolName = ''play_video'' then
           with_args args (play_video h safeRows availableHeaders)
         else if toolName = ''compute_stats_json'' then
           with_args args (\<lambda>a. column_stats h ''field'' safeRows availableHeaders (obj_get a ''field''))
         else Inr (JObj [(''error'', JStr (''Unknown tool: '' @ toolName))]))"

section \<open>The tool executor of src/unnamed/part_001\<close>

text \<open>
  The second copy of executeTool. Its rows are an array of row objects (\<open>rows = []\<close> by
  default); its cases are generateImage and compute_stats_json (above), plot_metric_vs_time,
  play_video, and the default.
\<close>

text \<open>
  The \<open>map\<close> of plot_metric_vs_time over the rows that have the metric and a truthy
  \<open>releaseDate\<close>: \<open>r.releaseDate.split('T')\<close> throws when the date is not a string.
\<close>

fun plot_points :: "host \<Rightarrow> string \<Rightarrow> jsobj list \<Rightarrow> js_error + jsobj list" where
  "plot_points h plotMetric [] = Inr []"
| "plot_points h plotMetric (r # rs) =
     (if obj_get r plotMetric \<noteq> JUndefined \<and> truthy (obj_get r ''releaseDate'') then
        (case obj_get r ''releaseDate'' of
           JStr d \<Rightarrow>
             (case plot_points h plotMetric rs of
                Inl e \<Rightarrow> Inl e
              | Inr ps \<Rightarrow>
                  Inr ([(''date'', (case date_getTime h (JStr d) of None \<Rightarrow> JUndefined | Some t \<Rightarrow> JNum t)),
                        (''dateStr'', JStr (hd (split_on CHR ''T'' d))),
                        (''title'', obj_get r ''title''),
                        (''value'', JNum (num_or_0 (parseFloat h (obj_get r plotMetric))))] # ps))
         | _ \<Rightarrow> Inl (TypeError ''r.releaseDate.split is not a function''))
      else plot_points h plotMetric rs)"

definition plot_metric_vs_time_alt :: "host \<Rightarrow> jsval \<Rightarrow> jsobj list \<Rightarrow> js_error + jsval" where
  "plot_metric_vs_time_alt h args rs =
     (case get_prop args ''metric'' of
        Inl e \<Rightarrow> Inl e
      | Inr m \<Rightarrow>
          (let plotMetric = stat_field (toLowerCase (to_string h (js_or m (JStr ''viewCount''))))
           in (case plot_points h plotMetric rs of
                 Inl e \<Rightarrow> Inl e
               | Inr ps \<Rightarrow>
                   (let validPlotData =
                          sort_by_key h (\<lambda>d. case obj_get d ''date'' of JNum t \<Rightarrow> Some t | _ \<Rightarrow> None) True ps
                    in if validPlotData = [] then
                         Inr (JObj [(''error'', JStr (''No valid data for '' @ plotMetric))])
                       else
                         Inr (JObj [(''_chartType'', JStr ''timeSeries''),
                                    (''metric'', JStr plotMetric),
                                    (''data'',
                                       JArr (map (\<lambda>d. JObj (foldl (\<lambda>ob kv. obj_set ob (fst kv) (snd kv)) []
                                                          [(''x'', obj_get d ''dateStr''),
                                                           (''y'', obj_get d ''value''),
                                                           (''date'', obj_get d ''dateStr''),
                                                           (plotMetric, obj_get d ''value''),
                                                           (''label'', obj_get d ''title'')]))
                                                validPlotData))])))))"

text \<open>
  \<open>rows.find(r => r.title && r.title.toLowerCase().includes(searchTitle))\<close>: a truthy title
  that is not a string throws.
\<close>

fun find_title :: "string \<Rightarrow> jsobj list \<Rightarrow> js_error + jsobj option" where
  "find_title searchTitle [] = Inr None"
| "find_title searchTitle (r # rs) =
     (if \<not> truthy (obj_get r ''title'') then find_title searchTitle rs
      else (case obj_get r ''title'' of
              JStr t \<Rightarrow> if includes_str (toLowerCase t) searchTitle then Inr (Some r)
                        else find_title searchTitle rs
            | _ \<Rightarrow> Inl (TypeError ''r.title.toLowerCase is not a function'')))"

text \<open>\<open>[...rows].sort((a, b) => (parseFloat(b[k]) || 0) - (parseFloat(a[k]) || 0))[0]\<close>\<close>

definition first_by_count :: "host \<Rightarrow> string \<Rightarrow> jsobj list \<Rightarrow> jsobj option" where
  "first_by_count h k rs =
     (case sort_key (\<lambda>r. - num_or_0 (parseFloat h (obj_get r k))) rs of
        [] \<Rightarrow> None
      | r # more_rows \<Rightarrow> Some r)"

definition play_video_alt :: "host \<Rightarrow> jsval \<Rightarrow> jsobj list \<Rightarrow> js_error + jsval" where
  "play_video_alt h args rs =
     (case get_prop args ''title'' of
        Inl e \<Rightarrow> Inl e
      | Inr t \<Rightarrow>
          (let searchTitle = toLowerCase (to_string h (js_or t (JStr [])))
           in (case find_title searchTitle rs of
                 Inl e \<Rightarrow> Inl e
               | Inr found \<Rightarrow>
                   (let video =
                          (case found of
                             Some r \<Rightarrow> Some r
                           | None \<Rightarrow>
                               if includes_str searchTitle ''most viewed'' then first_by_count h ''viewCount'' rs
                               else if includes_str searchTitle ''most liked'' then first_by_count h ''likeCount'' rs
                               else (case rs of [] \<Rightarrow> None | r # more_rows \<Rightarrow> Some r))
                    in (case video of
                          None \<Rightarrow> Inr (JObj [(''error'', JStr ''Video not found.'')])
                        | Some v \<Rightarrow>
                            Inr (JObj [(''_playVideo'', JBool True),
                                       (''title'', obj_get v ''title''),
                                       (''url'', js_or (obj_get v ''videoUrl'')
                                                   (JStr (''https://youtube.com/watch?v=''
                                                          @ to_string h (obj_get v ''videoId'')))),
                                       (''thumbnailUrl'', obj_get v ''thumbnailUrl'')]))))))"

definition executeTool_alt :: "host \<Rightarrow> string \<Rightarrow> jsval \<Rightarrow> jsobj list \<Rightarrow> jsobj \<Rightarrow> js_error + jsval" where
  "executeTool_alt h name args rs context =
     (if name = ''generateImage'' then Inr (generateImage_alt h args context)
      else if name = ''plot_metric_vs_time'' then plot_metric_vs_time_alt h args rs
      else if name = ''play_video'' then play_video_alt h args rs
      else if name = ''compute_stats_json'' then compute_stats_json_alt h args rs
      else Inr (JObj [(''error'', JStr (''Unknown tool: '' @ name))]))"

section \<open>The tool-calling orchestrator (chatWithCsvTools)\<close>

text \<open>
  A response part of the model API is a text part, a function call \<open>{name, args}\<close>, or
  something else. \<open>r_parts\<close> is \<open>response.candidates?.[0]?.content?.parts || []\<close> and
  \<open>r_text\<close> is what \<open>response.text()\<close> gives (it can throw).
\<close>

datatype part = TextPart string | FunctionCallPart string jsval | OtherPart

record response =
  r_parts :: "part list"
  r_text :: "js_error + string"

text \<open>\<open>parts.find((p) => p.functionCall)\<close>, destructured into name and args.\<close>

fun find_functionCall :: "part list \<Rightarrow> (string \<times> jsval) option" where
  "find_functionCall [] = None"
| "find_functionCall (FunctionCallPart name args # ps) = Some (name, args)"
| "find_functionCall (p # ps) = find_functionCall ps"

record toolcall =
  tc_name :: string
  tc_args :: jsval
  tc_result :: jsval

text \<open>A function-response message \<open>{functionResponse: {name, response: {result}}}\<close>.\<close>

type_synonym fresp = "string \<times> jsobj"

text \<open>
  \<open>const { inlineData, ...geminiSafeResult } = toolResult || {}\<close>: every own property but
  the one named \<open>inlineData\<close>.
\<close>

definition geminiSafeResult :: "jsval \<Rightarrow> jsobj" where
  "geminiSafeResult toolResult =
     filter (\<lambda>kv. fst kv \<noteq> ''inlineData'')
       (own_entries (if truthy toolResult then toolResult else JObj []))"

text \<open>
  The state of the loop: the last response, the two accumulators, and (for the proofs)
  the function responses sent to the model so far and a thrown error, if any.
  The model is an oracle from the function responses sent so far in this turn to its
  next reply; the history, the system instruction and the user's message are fixed in it,
  and \<open>model []\<close> is the reply to the user's message. \<open>executeFn\<close> is the executor.
\<close>

record loop_state =
  ls_response :: response
  ls_charts :: "jsval list"
  ls_toolCalls :: "toolcall list"
  ls_sent :: "fresp list"
  ls_thrown :: "js_error option"

datatype 'a iter = Break 'a | Next 'a

text \<open>The body of the loop: \<open>Break\<close> leaves the loop, \<open>Next\<close> goes to the next round.\<close>

definition csv_round ::
  "(string \<Rightarrow> jsval \<Rightarrow> js_error + jsval) \<Rightarrow> (fresp list \<Rightarrow> js_error + response) \<Rightarrow>
   loop_state \<Rightarrow> loop_state iter" where
  "csv_round executeFn model st =
     (case find_functionCall (r_parts (ls_response st)) of
        None \<Rightarrow> Break st
      | Some (name, args) \<Rightarrow>
          (case executeFn name args of
             Inl e \<Rightarrow> Break (st\<lparr>ls_thrown := Some e\<rparr>)
           | Inr toolResult \<Rightarrow>
               (let st1 = st\<lparr>ls_toolCalls := ls_toolCalls st @
                               [\<lparr>tc_name = name, tc_args = args, tc_result = toolResult\<rparr>]\<rparr>;
                    st2 = (if truthy (opt_get toolResult ''_chartType'') \<or>
                              truthy (opt_get toolResult ''_playVideo'')
                           then st1\<lparr>ls_charts := ls_charts st1 @ [toolResult]\<rparr>
                           else st1);
                    safe = geminiSafeResult toolResult;
                    st3 = st2\<lparr>ls_sent := ls_sent st2 @ [(name, safe)]\<rparr>
                in (case model (ls_sent st3) of
                      Inl e \<Rightarrow> Break (st3\<lparr>ls_thrown := Some e\<rparr>)
                    | Inr resp \<Rightarrow>
                        (let st4 = st3\<lparr>ls_response := resp\<rparr>
                         in if truthy (obj_get safe ''error'') then Break st4 else Next st4)))))"

text \<open>\<open>for (let round = 0; round < 5; round++) { ... }\<close>\<close>

function csv_loop ::
  "(string \<Rightarrow> jsval \<Rightarrow> js_error + jsval) \<Rightarrow> (fresp list \<Rightarrow> js_error + response) \<Rightarrow>
   nat \<Rightarrow> loop_state \<Rightarrow> loop_state" where
  "csv_loop executeFn model rnd st =
     (if rnd < 5 then
        (case csv_round executeFn model st of
           Break st' \<Rightarrow> st'
         | Next st' \<Rightarrow> csv_loop executeFn model (rnd + 1) st')
      else st)"
  by pat_completeness auto
termination
  by (relation "measure (\<lambda>(executeFn, model, rnd, st). 5 - rnd)") auto

declare csv_loop.simps [simp del]

record turn_result =
  t_text :: string
  t_charts :: "jsval list"
  t_toolCalls :: "toolcall list"

text \<open>
  What one call of chatWithCsvTools does: the value it returns (or the error it throws),
  and the function responses it sent to the model.
\<close>

record turn =
  tr_outcome :: "js_error + turn_result"
  tr_sent :: "fresp list"

definition chatWithCsvTools ::
  "(string \<Rightarrow> jsval \<Rightarrow> js_error + jsval) \<Rightarrow> (fresp list \<Rightarrow> js_error + response) \<Rightarrow> turn" where
  "chatWithCsvTools executeFn model =
     (case model [] of
        Inl e \<Rightarrow> \<lparr>tr_outcome = Inl e, tr_sent = []\<rparr>
      | Inr response0 \<Rightarrow>
          (let st = csv_loop executeFn model 0
                      \<lparr>ls_response = response0, ls_charts = [], ls_toolCalls = [],
                       ls_sent = [], ls_thrown = None\<rparr>
           in \<lparr>tr_outcome =
                  (case ls_thrown st of
                     Some e \<Rightarrow> Inl e
                   | None \<Rightarrow>
                       (case r_text (ls_response st) of
                          Inl e \<Rightarrow> Inl e
                        | Inr txt \<Rightarrow>
                            Inr \<lparr>t_text = txt, t_charts = ls_charts st,
                                 t_toolCalls = ls_toolCalls st\<rparr>)),
                tr_sent = ls_sent st\<rparr>))"

section \<open>The chat controller: persistence after a turn (Chat.handleSend)\<close>

text \<open>The arguments of the final \<open>saveMessage(sessionId, 'model', ...)\<close> of a turn.\<close>

record saved_message =
  sv_content :: string
  sv_charts :: "jsval list option"
  sv_toolCalls :: "toolcall list option"

text \<open>
  The function-calling path of handleSend: the answer, charts and tool-call log returned by
  chatWithCsvTools are saved (\<open>x.length ? x : null\<close> for the two lists); a thrown error is
  saved as \<open>Error: <message>\<close>.
\<close>

definition handleSend_tools ::
  "(string \<Rightarrow> jsval \<Rightarrow> js_error + jsval) \<Rightarrow> (fresp list \<Rightarrow> js_error + response) \<Rightarrow> saved_message" where
  "handleSend_tools executeFn model =
     (case tr_outcome (chatWithCsvTools executeFn model) of
        Inl err \<Rightarrow> \<lparr>sv_content = ''Error: '' @ err_message err, sv_charts = None, sv_toolCalls = None\<rparr>
      | Inr res \<Rightarrow>
          \<lparr>sv_content = t_text res,
           sv_charts = (if t_charts res = [] then None else Some (t_charts res)),
           sv_toolCalls = (if t_toolCalls res = [] then None else Some (t_toolCalls res))\<rparr>)"

text \<open>
  The executor handleSend passes to chatWithCsvTools:
  \<open>(toolName, args) => executeTool(toolName, args, sessionCsvRows || [], context)\<close>, for each
  of the two copies of executeTool.
\<close>

definition handleSend_executeFn ::
  "host \<Rightarrow> jsobj list option \<Rightarrow> jsobj \<Rightarrow> string \<Rightarrow> jsval \<Rightarrow> js_error + jsval" where
  "handleSend_executeFn h sessionCsvRows context toolName args =
     executeTool h toolName args
       (RowArray (case sessionCsvRows of None \<Rightarrow> [] | Some rs \<Rightarrow> rs)) context"

definition handleSend_executeFn_alt ::
  "host \<Rightarrow> jsobj list option \<Rightarrow> jsobj \<Rightarrow> string \<Rightarrow> jsval \<Rightarrow> js_error + jsval" where
  "handleSend_executeFn_alt h sessionCsvRows context toolName args =
     executeTool_alt h toolName args (case sessionCsvRows of None \<Rightarrow> [] | Some rs \<Rightarrow> rs) context"

section \<open>Streaming (streamChat and the streaming path of Chat.handleSend)\<close>

text \<open>
  A part of an API response: text, executable code (language, code), a code-execution
  result (outcome, output), inline data (MIME type, data), or something else.
\<close>

datatype api_part =
    AText string
  | AExecutableCode string string
  | ACodeExecutionResult string string
  | AInlineData string string
  | AOther

datatype spart =
    PText string
  | PCode string string
  | PResult string string
  | PImage string string

datatype chunk_event = TextEv string | FullResponseEv "spart list" | GroundingEv jsval

text \<open>
  \<open>if (part.text) yield { type: 'text', text: part.text }\<close> over the parts of one chunk:
  the texts yielded for it, and those of the whole stream.
\<close>

fun chunk_texts :: "api_part list \<Rightarrow> string list" where
  "chunk_texts [] = []"
| "chunk_texts (AText t # ps) = (if t \<noteq> [] then t # chunk_texts ps else chunk_texts ps)"
| "chunk_texts (p # ps) = chunk_texts ps"

definition stream_texts :: "api_part list list \<Rightarrow> string list" where
  "stream_texts chunks = concat (map chunk_texts chunks)"

fun is_code_part :: "api_part \<Rightarrow> bool" where
  "is_code_part (AExecutableCode l c) = True"
| "is_code_part (ACodeExecutionResult oc ou) = True"
| "is_code_part (AInlineData m d) = starts_with ''image/'' m"
| "is_code_part p = False"

fun structured :: "api_part \<Rightarrow> spart option" where
  "structured (AText t) = (if t \<noteq> [] then Some (PText t) else None)"
| "structured (AExecutableCode l c) = Some (PCode (if l \<noteq> [] then l else ''PYTHON'') c)"
| "structured (ACodeExecutionResult oc ou) = Some (PResult oc ou)"
| "structured (AInlineData m d) = Some (PImage m d)"
| "structured AOther = None"

text \<open>
  The events streamChat yields, and the error it throws after them, if any. \<open>chunks\<close> are
  the parts of the chunks of \<open>result.stream\<close>; \<open>failure\<close> is the error with which the stream
  or \<open>result.response\<close> rejects after these chunks; \<open>allParts\<close> and \<open>grounding\<close> are read from
  the complete response.
\<close>

definition streamChat ::
  "api_part list list \<Rightarrow> js_error option \<Rightarrow> api_part list \<Rightarrow> jsval \<Rightarrow> chunk_event list \<times> js_error option" where
  "streamChat chunks failure allParts grounding =
     (let texts = map TextEv (stream_texts chunks)
      in (case failure of
            Some e \<Rightarrow> (texts, Some e)
          | None \<Rightarrow>
              (texts
               @ (if list_ex is_code_part allParts
                  then [FullResponseEv (List.map_filter structured allParts)] else [])
               @ (if truthy grounding then [GroundingEv grounding] else []),
               None)))"

record stream_state =
  fullContent :: string
  structuredParts :: "spart list option"
  groundingData :: "jsval option"

text \<open>
  The \<open>for await\<close> loop of handleSend. \<open>abort i\<close> is the value of \<open>abortRef.current\<close> when
  it is read for the chunk received as number \<open>i\<close> (from 0): the flag is read once per
  received chunk, after the chunk has arrived. The result is the state after the loop and
  the error the stream threw, if it did.
\<close>

definition apply_chunk :: "stream_state \<Rightarrow> chunk_event \<Rightarrow> stream_state" where
  "apply_chunk st chunk =
     (case chunk of
        TextEv t \<Rightarrow> st\<lparr>fullContent := fullContent st @ t\<rparr>
      | FullResponseEv ps \<Rightarrow> st\<lparr>structuredParts := Some ps\<rparr>
      | GroundingEv d \<Rightarrow> st\<lparr>groundingData := Some d\<rparr>)"

fun stream_loop ::
  "(nat \<Rightarrow> bool) \<Rightarrow> nat \<Rightarrow> chunk_event list \<Rightarrow> js_error option \<Rightarrow> stream_state \<Rightarrow>
   stream_state \<times> js_error option" where
  "stream_loop abort i [] failure st = (st, failure)"
| "stream_loop abort i (chunk # later) failure st =
     (if abort i then (st, None)
      else stream_loop abort (i + 1) later failure (apply_chunk st chunk))"

fun spart_text :: "spart \<Rightarrow> string option" where
  "spart_text (PText t) = Some t"
| "spart_text p = None"

text \<open>
  The streaming path of handleSend up to the final \<open>saveMessage\<close>: the loop, the
  \<open>catch\<close> that replaces the content by \<open>Error: <message>\<close>, and the saved content.
\<close>

definition handleSend_stream ::
  "(nat \<Rightarrow> bool) \<Rightarrow> chunk_event list \<times> js_error option \<Rightarrow> saved_message" where
  "handleSend_stream abort stream =
     (let (st, thrown) = stream_loop abort 0 (fst stream) (snd stream)
                           \<lparr>fullContent = [], structuredParts = None, groundingData = None\<rparr>;
          st' = (case thrown of
                   None \<Rightarrow> st
                 | Some err \<Rightarrow> st\<lparr>fullContent := ''Error: '' @ err_message err\<rparr>);
          savedContent = (case structuredParts st' of
                            Some ps \<Rightarrow> join [CHR 0x0A] (List.map_filter spart_text ps)
                          | None \<Rightarrow> fullContent st')
      in \<lparr>sv_content = savedContent, sv_charts = None, sv_toolCalls = None\<rparr>)"

section \<open>The cached system instruction (loadSystemPrompt)\<close>

text \<open>
  One fetch of the prompt resource: it rejects, or gives a response with its \<open>ok\<close> flag and
  its text (\<open>None\<close> when reading the text rejects). \<open>net i\<close> is the outcome of the fetch
  issued as number \<open>i\<close> in this process. The state is the module variable
  \<open>cachedPrompt\<close> (\<open>None\<close> is \<open>null\<close>) and the number of fetches issued so far.
\<close>

datatype http_text = Rejects | Responds bool "string option"

record prompt_state =
  cachedPrompt :: "string option"
  fetches :: nat

definition loadSystemPrompt :: "(nat \<Rightarrow> http_text) \<Rightarrow> prompt_state \<Rightarrow> string \<times> prompt_state" where
  "loadSystemPrompt net st =
     (if cachedPrompt st \<noteq> None \<and> cachedPrompt st \<noteq> Some [] then (the (cachedPrompt st), st)
      else
        (let fetched = (case net (fetches st) of
                          Rejects \<Rightarrow> []
                        | Responds ok body \<Rightarrow>
                            (if ok then (case body of None \<Rightarrow> [] | Some t \<Rightarrow> trim t) else []))
         in (fetched, \<lparr>cachedPrompt = Some fetched, fetches = fetches st + 1\<rparr>)))"

text \<open>\<open>n\<close> calls one after the other, from a given state: the results and the last state.\<close>

fun load_times :: "(nat \<Rightarrow> http_text) \<Rightarrow> nat \<Rightarrow> prompt_state \<Rightarrow> string list \<times> prompt_state" where
  "load_times net 0 st = ([], st)"
| "load_times net (Suc n) st =
     (let (p, st1) = loadSystemPrompt net st;
          (ps, st2) = load_times net n st1
      in (p # ps, st2))"

definition process_start :: prompt_state where
  "process_start = \<lparr>cachedPrompt = None, fetches = 0\<rparr>"

section \<open>Auxiliary definitions for the proofs and examples\<close>

text \<open>
  The invariant of the loop of chatWithCsvTools: every logged call holds what the executor
  returned for it, and the function responses sent are the sanitized logged results.
\<close>

definition log_inv :: "(string \<Rightarrow> jsval \<Rightarrow> js_error + jsval) \<Rightarrow> loop_state \<Rightarrow> bool" where
  "log_inv executeFn st =
     (list_all (\<lambda>tc. executeFn (tc_name tc) (tc_args tc) = Inr (tc_result tc)) (ls_toolCalls st) \<and>
      ls_sent st = map (\<lambda>tc. (tc_name tc, geminiSafeResult (tc_result tc))) (ls_toolCalls st))"

text \<open>A model that asks for one image and then answers in text.\<close>

definition image_model :: "fresp list \<Rightarrow> js_error + response" where
  "image_model sent =
     (if sent = [] then
        Inr \<lparr>r_parts = [FunctionCallPart ''generateImage'' (JObj [(''prompt'', JStr ''a cat'')])],
             r_text = Inr []\<rparr>
      else Inr \<lparr>r_parts = [TextPart ''Here is your image.''], r_text = Inr ''Here is your image.''\<rparr>)"

text \<open>What the generateImage case returns for it on the sample host.\<close>

definition image_result :: jsval where
  "image_result =
     JObj [(''inlineData'', JObj [(''mimeType'', JStr ''image/png''), (''data'', JStr ''iVBORw0KGgo='')]),
           (''_chartType'', JStr ''generatedImage''), (''prompt'', JStr ''a cat''),
           (''anchorUsed'', JBool False), (''url'', JStr ''/generated/1.png''),
           (''fileName'', JStr ''1.png''), (''message'', JStr ''Generated image preview ready.'')]"

text \<open>Rows with a column of scores, one of them not a number.\<close>

definition score_rows :: "jsobj list" where
  "score_rows = [[(''score'', JStr ''1'')], [(''score'', JStr ''2'')], [(''score'', JStr ''n/a'')],
                 [(''score'', JNum 3)], [(''score'', JStr ''4'')]]"

text \<open>
  For the statement about the totality of executeTool: an argument that is a string or
  falsy (absent, \<open>null\<close>, empty, \<open>0\<close>, \<open>false\<close>); a result that is an error object
  \<open>{error: string}\<close> or an object without the key \<open>error\<close>; and the tool names of the
  \<open>switch\<close>.
\<close>

fun string_or_falsy :: "jsval \<Rightarrow> bool" where
  "string_or_falsy (JStr s) = True"
| "string_or_falsy v = (\<not> truthy v)"

definition is_error_object :: "jsobj \<Rightarrow> bool" where
  "is_error_object ob = (case ob of [(k, JStr m)] \<Rightarrow> k = ''error'' | _ \<Rightarrow> False)"

fun plain_or_error :: "jsval \<Rightarrow> bool" where
  "plain_or_error (JObj ob) = (is_error_object ob \<or> ''error'' \<notin> set (keys ob))"
| "plain_or_error v = False"

definition known_tools :: "string list" where
  "known_tools = [''compute_column_stats'', ''get_value_counts'', ''get_top_items'', ''generateImage'',
                  ''plot_metric_vs_time'', ''play_video'', ''compute_stats_json'']"

section \<open>Properties of the orchestrator\<close>

lemma csv_round_sent:
  assumes "csv_round executeFn model st = r" and "r = Break st' \<or> r = Next st'"
  shows "length (ls_sent st') \<le> length (ls_sent st) + 1"
  using assms
  by (auto simp add: csv_round_def Let_def split: option.splits sum.splits if_splits)

lemma csv_loop_sent_bound:
  "length (ls_sent (csv_loop executeFn model rnd st)) \<le> length (ls_sent st) + (5 - rnd)"
proof (induction executeFn model rnd st rule: csv_loop.induct)
  case (1 executeFn model rnd st)
  show ?case
  proof (cases "rnd < 5")
    case False
    then show ?thesis by (simp add: csv_loop.simps [of executeFn model rnd st])
  next
    case lt: True
    show ?thesis
    proof (cases "csv_round executeFn model st")
      case (Break st')
      then have "length (ls_sent st') \<le> length (ls_sent st) + 1"
        using csv_round_sent by blast
      then show ?thesis using lt Break
        by (simp add: csv_loop.simps [of executeFn model rnd st])
    next
      case (Next st')
      then have "length (ls_sent st') \<le> length (ls_sent st) + 1"
        using csv_round_sent by blast
      moreover have "length (ls_sent (csv_loop executeFn model (rnd + 1) st'))
                       \<le> length (ls_sent st') + (5 - (rnd + 1))"
        using "1.IH" [OF lt Next] .
      ultimately show ?thesis using lt Next
        by (simp add: csv_loop.simps [of executeFn model rnd st])
    qed
  qed
qed

text \<open>
  C2. In one turn chatWithCsvTools sends at most 5 function responses to the model,
  whatever the model replies and whatever the executor returns.
\<close>

theorem chatWithCsvTools_at_most_5_rounds:
  "length (tr_sent (chatWithCsvTools executeFn model)) \<le> 5"
proof (cases "model []")
  case (Inl e)
  then show ?thesis by (simp add: chatWithCsvTools_def)
next
  case (Inr response0)
  have "length (ls_sent (csv_loop executeFn model 0
          \<lparr>ls_response = response0, ls_charts = [], ls_toolCalls = [],
           ls_sent = [], ls_thrown = None\<rparr>)) \<le> 5"
    using csv_loop_sent_bound [of executeFn model 0
          "\<lparr>ls_response = response0, ls_charts = [], ls_toolCalls = [],
           ls_sent = [], ls_thrown = None\<rparr>"] by simp
  then show ?thesis using Inr by (simp add: chatWithCsvTools_def Let_def)
qed

lemma csv_round_log_inv:
  assumes "log_inv executeFn st" and "csv_round executeFn model st = r"
    and "r = Break st' \<or> r = Next st'"
  shows "log_inv executeFn st'"
  using assms
  by (auto simp add: csv_round_def log_inv_def Let_def split: option.splits sum.splits if_splits)

lemma csv_loop_log_inv:
  "log_inv executeFn st \<Longrightarrow> log_inv executeFn (csv_loop executeFn model rnd st)"
proof (induction executeFn model rnd st rule: csv_loop.induct)
  case (1 executeFn model rnd st)
  show ?case
  proof (cases "rnd < 5")
    case False
    then show ?thesis using "1.prems" by (simp add: csv_loop.simps [of executeFn model rnd st])
  next
    case lt: True
    show ?thesis
    proof (cases "csv_round executeFn model st")
      case (Break st')
      then have "log_inv executeFn st'" using csv_round_log_inv "1.prems" by blast
      then show ?thesis using lt Break by (simp add: csv_loop.simps [of executeFn model rnd st])
    next
      case (Next st')
      then have "log_inv executeFn st'" using csv_round_log_inv "1.prems" by blast
      then have "log_inv executeFn (csv_loop executeFn model (rnd + 1) st')"
        using "1.IH" [OF lt Next] by simp
      then show ?thesis using lt Next by (simp add: csv_loop.simps [of executeFn model rnd st])
    qed
  qed
qed

lemma geminiSafeResult_no_inlineData: "''inlineData'' \<notin> set (keys (geminiSafeResult v))"
  by (auto simp add: geminiSafeResult_def keys_def)

text \<open>
  C10. When chatWithCsvTools returns, every record of its tool-call log holds the result
  the executor returned for that call, unsanitized; the function responses sent to the model
  are the sanitized results of the logged calls, in order; and handleSend passes the log,
  when it is not empty, to the final saveMessage.
\<close>

theorem toolCalls_log_raw:
  assumes "tr_outcome (chatWithCsvTools executeFn model) = Inr res"
  shows "list_all (\<lambda>tc. executeFn (tc_name tc) (tc_args tc) = Inr (tc_result tc)) (t_toolCalls res) \<and>
         tr_sent (chatWithCsvTools executeFn model) =
           map (\<lambda>tc. (tc_name tc, geminiSafeResult (tc_result tc))) (t_toolCalls res) \<and>
         sv_toolCalls (handleSend_tools executeFn model) =
           (if t_toolCalls res = [] then None else Some (t_toolCalls res))"
proof (cases "model []")
  case (Inl e)
  then show ?thesis using assms by (simp add: chatWithCsvTools_def)
next
  case (Inr response0)
  let ?init = "\<lparr>ls_response = response0, ls_charts = [], ls_toolCalls = [],
                ls_sent = [], ls_thrown = None\<rparr>"
  let ?st = "csv_loop executeFn model 0 ?init"
  have "log_inv executeFn ?init" by (simp add: log_inv_def)
  then have inv: "log_inv executeFn ?st" by (rule csv_loop_log_inv)
  have res: "t_toolCalls res = ls_toolCalls ?st"
    using assms Inr by (auto simp add: chatWithCsvTools_def Let_def split: option.splits sum.splits)
  have sent: "tr_sent (chatWithCsvTools executeFn model) = ls_sent ?st"
    using Inr by (simp add: chatWithCsvTools_def Let_def)
  from inv have a: "list_all (\<lambda>tc. executeFn (tc_name tc) (tc_args tc) = Inr (tc_result tc)) (ls_toolCalls ?st)"
    and b: "ls_sent ?st = map (\<lambda>tc. (tc_name tc, geminiSafeResult (tc_result tc))) (ls_toolCalls ?st)"
    by (simp_all add: log_inv_def)
  have c: "sv_toolCalls (handleSend_tools executeFn model) =
           (if t_toolCalls res = [] then None else Some (t_toolCalls res))"
    using assms by (simp add: handleSend_tools_def)
  show ?thesis using a b c by (simp add: res sent)
qed

text \<open>
  An instance: the image result is logged with its \<open>inlineData\<close>, the function response
  has none, and the log is saved.
\<close>

theorem toolCalls_log_raw_witness:
  "tr_outcome (chatWithCsvTools (handleSend_executeFn sample_host None []) image_model)
     = Inr \<lparr>t_text = ''Here is your image.'', t_charts = [image_result],
            t_toolCalls = [\<lparr>tc_name = ''generateImage'', tc_args = JObj [(''prompt'', JStr ''a cat'')],
                             tc_result = image_result\<rparr>]\<rparr> \<and>
   opt_get image_result ''inlineData'' = JObj [(''mimeType'', JStr ''image/png''), (''data'', JStr ''iVBORw0KGgo='')] \<and>
   tr_sent (chatWithCsvTools (handleSend_executeFn sample_host None []) image_model)
     = [(''generateImage'', geminiSafeResult image_result)] \<and>
   obj_get (geminiSafeResult image_result) ''inlineData'' = JUndefined \<and>
   sv_toolCalls (handleSend_tools (handleSend_executeFn sample_host None []) image_model)
     = Some [\<lparr>tc_name = ''generateImage'', tc_args = JObj [(''prompt'', JStr ''a cat'')],
               tc_result = image_result\<rparr>]"
proof -
  let ?ex = "handleSend_executeFn sample_host None []"
  have out: "tr_outcome (chatWithCsvTools ?ex image_model)
     = Inr \<lparr>t_text = ''Here is your image.'', t_charts = [image_result],
            t_toolCalls = [\<lparr>tc_name = ''generateImage'', tc_args = JObj [(''prompt'', JStr ''a cat'')],
                             tc_result = image_result\<rparr>]\<rparr>"
    by code_simp
  show ?thesis
    using toolCalls_log_raw [OF out] out
    by (simp add: image_result_def geminiSafeResult_def obj_get_def)
qed

text \<open>
  C1. With the generateImage case of src/unnamed/part_001 the image bytes are under the key
  \<open>data\<close>, which the sanitization keeps: the function response sent to the model carries
  them.
\<close>

theorem image_bytes_reach_model:
  "tr_sent (chatWithCsvTools (handleSend_executeFn_alt sample_host None []) image_model)
     = [(''generateImage'',
         [(''_chartType'', JStr ''generatedImage''), (''data'', JStr ''iVBORw0KGgo=''),
          (''mimeType'', JStr ''image/png''), (''url'', JStr ''/generated/1.png''),
          (''prompt'', JStr ''a cat''), (''fileName'', JStr ''1.png'')])]"
  by code_simp


section \<open>Properties of the streaming path\<close>

lemma stream_loop_break:
  "\<forall>j<k. \<not> abort (i + j) \<Longrightarrow> abort (i + k) \<Longrightarrow> k < length evs \<Longrightarrow>
   stream_loop abort i evs failure st = (foldl apply_chunk st (take k evs), None)"
proof (induction evs arbitrary: i k st)
  case Nil
  then show ?case by simp
next
  case (Cons e evs)
  show ?case
  proof (cases k)
    case 0
    then show ?thesis using Cons.prems by simp
  next
    case (Suc k')
    have na: "\<not> abort i" using Cons.prems(1) Suc by force
    have "\<forall>j<k'. \<not> abort (i + 1 + j)" using Cons.prems(1) Suc by force
    moreover have "abort (i + 1 + k')" using Cons.prems(2) Suc by simp
    moreover have "k' < length evs" using Cons.prems(3) Suc by simp
    ultimately have "stream_loop abort (i + 1) evs failure (apply_chunk st e)
                     = (foldl apply_chunk (apply_chunk st e) (take k' evs), None)"
      by (rule Cons.IH)
    then show ?thesis using na Suc by simp
  qed
qed

lemma stream_loop_all:
  "\<forall>j<length evs. \<not> abort (i + j) \<Longrightarrow>
   stream_loop abort i evs failure st = (foldl apply_chunk st evs, failure)"
proof (induction evs arbitrary: i st)
  case Nil
  then show ?case by simp
next
  case (Cons e evs)
  have na: "\<not> abort i" using Cons.prems by force
  have "\<forall>j<length evs. \<not> abort (i + 1 + j)" using Cons.prems by force
  then have "stream_loop abort (i + 1) evs failure (apply_chunk st e)
           = (foldl apply_chunk (apply_chunk st e) evs, failure)"
    by (rule Cons.IH)
  then show ?case using na by simp
qed

lemma foldl_text_events:
  "foldl apply_chunk st (map TextEv ts) = st\<lparr>fullContent := fullContent st @ concat ts\<rparr>"
  by (induction ts arbitrary: st) (simp_all add: apply_chunk_def)

lemma streamChat_events_texts:
  "k \<le> length (stream_texts chunks) \<Longrightarrow>
   take k (fst (streamChat chunks failure allParts grounding)) = map TextEv (take k (stream_texts chunks))"
  by (simp add: streamChat_def Let_def take_map split: option.splits)



section \<open>Properties of the cached system instruction\<close>

lemma load_cached:
  "cachedPrompt st = Some p \<Longrightarrow> p \<noteq> [] \<Longrightarrow> loadSystemPrompt net st = (p, st)"
  by (simp add: loadSystemPrompt_def)

text \<open>
  C7. The cache test \<open>if (cachedPrompt)\<close> takes the empty string for "not loaded": when
  the first fetch fails, the second call fetches again, and the two calls return different
  values in one process.
\<close>

theorem prompt_refetched_after_failure:
  "load_times (\<lambda>i. if i = 0 then Rejects else Responds True (Some ''Be brief.'')) 2 process_start
     = ([[], ''Be brief.''], \<lparr>cachedPrompt = Some ''Be brief.'', fetches = 2\<rparr>)"
  by code_simp

lemma prompt_refetched_every_call:
  "load_times (\<lambda>i. Rejects) 3 process_start = ([[], [], []], \<lparr>cachedPrompt = Some [], fetches = 3\<rparr>)"
  by code_simp


section \<open>Properties of the CSV parser\<close>

lemma keys_simps [simp]: "keys [] = []" "keys ((k, v) # ob) = k # keys ob" "keys (xs @ ys) = keys xs @ keys ys"
  by (simp_all add: keys_def)

lemma keys_insert_index [simp]: "set (keys (insert_index k v ob)) = insert k (set (keys ob))"
  by (induction ob) (auto split: if_splits)

lemma keys_map_update [simp]:
  "keys (map (\<lambda>kv. if fst kv = k then (k, v) else kv) ob) = keys ob"
  by (induction ob) auto

lemma in_keys_iff: "k \<in> fst ` set ob \<longleftrightarrow> k \<in> set (keys ob)"
  by (simp add: keys_def)

lemma keys_obj_set: "set (keys (obj_set ob k v)) = insert k (set (keys ob))"
  by (auto simp add: obj_set_def in_keys_iff)

lemma distinct_insert_index:
  "distinct (keys ob) \<Longrightarrow> k \<notin> set (keys ob) \<Longrightarrow> distinct (keys (insert_index k v ob))"
  by (induction ob) auto

lemma distinct_obj_set: "distinct (keys ob) \<Longrightarrow> distinct (keys (obj_set ob k v))"
  by (auto simp add: obj_set_def in_keys_iff distinct_insert_index)

lemma map_of_insert_index:
  "map_of (insert_index k v ob) k' = (if k' = k then Some v else map_of ob k')"
  by (induction ob) auto

lemma map_of_map_update:
  "map_of (map (\<lambda>kv. if fst kv = k then (k, v) else kv) ob) k' =
     (if k' = k then (if k \<in> set (keys ob) then Some v else None) else map_of ob k')"
  by (induction ob) auto

lemma map_of_None_keys: "k \<notin> set (keys ob) \<Longrightarrow> map_of ob k = None"
  by (simp add: keys_def map_of_eq_None_iff)

lemma obj_get_obj_set: "obj_get (obj_set ob k v) k' = (if k' = k then v else obj_get ob k')"
  by (auto simp add: obj_set_def obj_get_def in_keys_iff map_of_insert_index map_of_map_update
      map_of_None_keys split: option.splits)


lemma obj_get_empty [simp]: "obj_get [] k = JUndefined"
  by (simp add: obj_get_def)

lemma row_fold:
  fixes vals :: "string list" and hs :: "string list"
  defines "step \<equiv> (\<lambda>obj hi. obj_set obj (fst hi) (JStr (strip_quotes (field_or_empty vals (snd hi)))))"
  assumes "m \<le> length hs"
  shows "distinct (keys (foldl step [] (zip (take m hs) [0..<m]))) \<and>
         set (keys (foldl step [] (zip (take m hs) [0..<m]))) = set (take m hs) \<and>
         (\<forall>i<m. (\<forall>j. i < j \<and> j < m \<longrightarrow> hs ! j \<noteq> hs ! i) \<longrightarrow>
            obj_get (foldl step [] (zip (take m hs) [0..<m])) (hs ! i)
              = JStr (strip_quotes (field_or_empty vals i)))"
  using assms(2)
proof (induction m)
  case 0
  then show ?case by simp
next
  case (Suc m)
  let ?r = "foldl step [] (zip (take m hs) [0..<m])"
  have m: "m < length hs" using Suc.prems by simp
  have IH: "distinct (keys ?r)" "set (keys ?r) = set (take m hs)"
    "\<forall>i<m. (\<forall>j. i < j \<and> j < m \<longrightarrow> hs ! j \<noteq> hs ! i) \<longrightarrow>
        obj_get ?r (hs ! i) = JStr (strip_quotes (field_or_empty vals i))"
    using Suc.IH m by simp_all
  have z: "zip (take (Suc m) hs) [0..<Suc m] = zip (take m hs) [0..<m] @ [(hs ! m, m)]"
    using m by (simp add: take_Suc_conv_app_nth)
  have r': "foldl step [] (zip (take (Suc m) hs) [0..<Suc m])
             = obj_set ?r (hs ! m) (JStr (strip_quotes (field_or_empty vals m)))"
    unfolding z by (simp add: step_def)
  have d: "distinct (keys (obj_set ?r (hs ! m) (JStr (strip_quotes (field_or_empty vals m)))))"
    using IH(1) by (rule distinct_obj_set)
  have k: "set (keys (obj_set ?r (hs ! m) (JStr (strip_quotes (field_or_empty vals m)))))
             = set (take (Suc m) hs)"
    using IH(2) m by (simp add: keys_obj_set take_Suc_conv_app_nth)
  have g: "\<forall>i<Suc m. (\<forall>j. i < j \<and> j < Suc m \<longrightarrow> hs ! j \<noteq> hs ! i) \<longrightarrow>
            obj_get (obj_set ?r (hs ! m) (JStr (strip_quotes (field_or_empty vals m)))) (hs ! i)
              = JStr (strip_quotes (field_or_empty vals i))"
  proof (intro allI impI)
    fix i assume i: "i < Suc m" and last: "\<forall>j. i < j \<and> j < Suc m \<longrightarrow> hs ! j \<noteq> hs ! i"
    show "obj_get (obj_set ?r (hs ! m) (JStr (strip_quotes (field_or_empty vals m)))) (hs ! i)
              = JStr (strip_quotes (field_or_empty vals i))"
    proof (cases "i = m")
      case True
      then show ?thesis by (simp add: obj_get_obj_set)
    next
      case False
      then have im: "i < m" using i by simp
      then have ne: "hs ! m \<noteq> hs ! i" using last by simp
      have "\<forall>j. i < j \<and> j < m \<longrightarrow> hs ! j \<noteq> hs ! i" using last by simp
      then have "obj_get ?r (hs ! i) = JStr (strip_quotes (field_or_empty vals i))"
        using IH(3) im by simp
      then show ?thesis using ne by (simp add: obj_get_obj_set)
    qed
  qed
  show ?case unfolding r' using d k g by simp
qed

lemma row_of_line_props:
  "distinct (keys (row_of_line hs line)) \<and> set (keys (row_of_line hs line)) = set hs \<and>
   (\<forall>i<length hs. (\<forall>j. i < j \<and> j < length hs \<longrightarrow> hs ! j \<noteq> hs ! i) \<longrightarrow>
      obj_get (row_of_line hs line) (hs ! i) = JStr (strip_quotes (field_or_empty (parseLine line) i)))"
  using row_fold [of "length hs" hs "parseLine line"] by (simp add: row_of_line_def Let_def)




lemma parseLine_loop_plain:
  "CHR 0x22 \<notin> set s \<Longrightarrow> CHR '','' \<notin> set s \<Longrightarrow>
   parseLine_loop (s @ r) cur False res = parseLine_loop r (cur @ s) False res"
  by (induction s arbitrary: cur) auto

lemma parseLine_loop_quoted:
  "CHR 0x22 \<notin> set s \<Longrightarrow>
   parseLine_loop (s @ r) cur True res = parseLine_loop r (cur @ s) True res"
  by (induction s arbitrary: cur) auto

lemma parseLine_loop_field:
  "wf_field f \<Longrightarrow>
   parseLine_loop (write_field f @ r) cur False res = parseLine_loop r (cur @ field_text f) False res"
proof (cases f)
  case (Bare s)
  assume "wf_field f"
  then show ?thesis using Bare parseLine_loop_plain [of s r cur res] by simp
next
  case (Quoted s)
  assume "wf_field f"
  then have q: "CHR 0x22 \<notin> set s" using Quoted by simp
  have "parseLine_loop (write_field f @ r) cur False res
          = parseLine_loop (s @ CHR 0x22 # r) cur True res"
    using Quoted by simp
  also have "\<dots> = parseLine_loop (CHR 0x22 # r) (cur @ s) True res"
    using q by (rule parseLine_loop_quoted)
  also have "\<dots> = parseLine_loop r (cur @ s) False res" by simp
  finally show ?thesis using Quoted by simp
qed

lemma parseLine_loop_record:
  "list_all wf_field fs \<Longrightarrow> fs \<noteq> [] \<Longrightarrow>
   parseLine_loop (write_record fs) [] False res = res @ map (\<lambda>f. trim (field_text f)) fs"
proof (induction fs arbitrary: res)
  case Nil
  then show ?case by simp
next
  case (Cons f fs)
  show ?case
  proof (cases fs)
    case Nil
    have "parseLine_loop (write_field f @ []) [] False res = parseLine_loop [] ([] @ field_text f) False res"
      using Cons.prems(1) by (intro parseLine_loop_field) simp
    then show ?thesis using Nil by (simp add: write_record_def)
  next
    case (Cons g gs)
    have wr: "write_record (f # fs) = write_field f @ CHR '','' # write_record fs"
      using Cons by (simp add: write_record_def)
    have "parseLine_loop (write_field f @ CHR '','' # write_record fs) [] False res
            = parseLine_loop (CHR '','' # write_record fs) ([] @ field_text f) False res"
      using Cons.prems(1) by (intro parseLine_loop_field) simp
    also have "\<dots> = parseLine_loop (write_record fs) [] False (res @ [trim (field_text f)])"
      by simp
    also have "\<dots> = (res @ [trim (field_text f)]) @ map (\<lambda>f. trim (field_text f)) fs"
      using Cons.prems(1) Cons by (intro Cons.IH) simp_all
    finally show ?thesis by (simp add: wr)
  qed
qed

lemma parseLine_write_record:
  "list_all wf_field fs \<Longrightarrow> fs \<noteq> [] \<Longrightarrow>
   parseLine (write_record fs) = map (\<lambda>f. trim (field_text f)) fs"
  using parseLine_loop_record [of fs "[]"] by (simp add: parseLine_def)

lemma split_on_no_sep: "c \<notin> set l \<Longrightarrow> split_on c l = [l]"
  by (induction l) auto

lemma split_on_append: "c \<notin> set l \<Longrightarrow> split_on c (l @ c # r) = l # split_on c r"
  by (induction l) auto

lemma split_on_join:
  "list_all (\<lambda>l. c \<notin> set l) ls \<Longrightarrow> ls \<noteq> [] \<Longrightarrow> split_on c (join [c] ls) = ls"
proof (induction ls)
  case Nil
  then show ?case by simp
next
  case (Cons l ls)
  show ?case
  proof (cases ls)
    case Nil
    then show ?thesis using Cons.prems by (simp add: split_on_no_sep)
  next
    case (Cons m ms)
    then have "join [c] (l # ls) = l @ c # join [c] ls" by simp
    then show ?thesis using Cons.prems Cons.IH Cons by (simp add: split_on_append)
  qed
qed

lemma write_record_one_line:
  "list_all one_line fs \<Longrightarrow> list_all wf_field fs \<Longrightarrow> CHR 0x0A \<notin> set (write_record fs)"
proof (induction fs)
  case Nil
  then show ?case by (simp add: write_record_def)
next
  case (Cons f fs)
  have f: "CHR 0x0A \<notin> set (write_field f)"
    using Cons.prems by (cases f) (auto simp add: one_line_def)
  show ?case
  proof (cases fs)
    case Nil
    then show ?thesis using f by (simp add: write_record_def)
  next
    case (Cons g gs)
    then have "write_record (f # fs) = write_field f @ CHR '','' # write_record fs"
      by (simp add: write_record_def)
    then show ?thesis using f Cons.IH Cons.prems by simp
  qed
qed


lemma nonblank_lines_write_csv:
  assumes "list_all (list_all wf_field) recs" and "list_all (list_all one_line) recs"
    and "list_all (\<lambda>r. trim (write_record r) \<noteq> []) recs" and "recs \<noteq> []"
  shows "nonblank_lines (write_csv recs) = map write_record recs"
proof -
  have "list_all (\<lambda>l. CHR 0x0A \<notin> set l) (map write_record recs)"
    using assms(1,2) write_record_one_line by (auto simp add: list_all_iff)
  then have "split_on CHR 0x0A (write_csv recs) = map write_record recs"
    using assms(4) by (simp add: write_csv_def split_on_join)
  moreover have "filter (\<lambda>l. trim l \<noteq> []) (map write_record recs) = map write_record recs"
    using assms(3) by (auto simp add: list_all_iff filter_id_conv)
  ultimately show ?thesis by (simp add: nonblank_lines_def)
qed





section \<open>Properties of enrichWithEngagement\<close>

lemma find_append_Some: "find P xs = Some x \<Longrightarrow> find P (xs @ ys) = Some x"
  by (induction xs) (auto split: if_splits)

lemma enrich_idem: 
  "enrichWithEngagement h (rows (enrichWithEngagement h rs hs)) (headers (enrichWithEngagement h rs hs))
     = enrichWithEngagement h rs hs"
proof (cases "rs = []")
  case True
  then show ?thesis by (simp add: enrichWithEngagement_def)
next
  case ne: False
  show ?thesis
  proof (cases "find (test_ci ''likeCount'') hs")
    case None
    then show ?thesis using ne by (simp add: enrichWithEngagement_def)
  next
    case l: (Some likeCol)
    show ?thesis
    proof (cases "find (test_ci ''viewCount'') hs")
      case None
      then show ?thesis using ne l by (simp add: enrichWithEngagement_def)
    next
      case v: (Some viewCol)
      show ?thesis
      proof (cases "likeCol = [] \<or> viewCol = [] \<or> ''engagement'' \<in> set hs")
        case True
        then show ?thesis using ne l v by (auto simp add: enrichWithEngagement_def)
      next
        case False
        then have t: "enrichWithEngagement h rs hs
                = \<lparr>headers = hs @ [''engagement''],
                   rows = map (\<lambda>r. obj_set r ''engagement'' (engagement_of h likeCol viewCol r)) rs\<rparr>"
          using ne l v by (simp add: enrichWithEngagement_def)
        have l': "find (test_ci ''likeCount'') (hs @ [''engagement'']) = Some likeCol"
          using l by (rule find_append_Some)
        have v': "find (test_ci ''viewCount'') (hs @ [''engagement'']) = Some viewCol"
          using v by (rule find_append_Some)
        show ?thesis
          unfolding t using ne l' v' False by (simp add: enrichWithEngagement_def)
      qed
    qed
  qed
qed

lemma obj_set_same:
  "k \<in> set (keys (obj_set ob k v)) \<and> obj_set (obj_set ob k v) k v = obj_set ob k v"
proof -
  have k: "k \<in> set (keys (obj_set ob k v))" by (simp add: keys_obj_set)
  have m: "map (\<lambda>kv. if fst kv = k then (k, v) else kv) (map (\<lambda>kv. if fst kv = k then (k, v) else kv) xs)
        = map (\<lambda>kv. if fst kv = k then (k, v) else kv) xs" for xs :: jsobj
    by (induction xs) auto
  have n: "map (\<lambda>kv. if fst kv = k then (k, v) else kv) xs = xs"
    if "k \<notin> set (keys xs)" for xs :: jsobj
    using that by (induction xs) auto
  have i: "map (\<lambda>kv. if fst kv = k then (k, v) else kv) (insert_index k v xs) = insert_index k v xs"
    if "k \<notin> set (keys xs)" for xs
    using that n by (induction xs) auto
  have a: "map (\<lambda>kv. if fst kv = k then (k, v) else kv) (xs @ [(k, v)]) = xs @ [(k, v)]"
    if "k \<notin> set (keys xs)" for xs
    using that by (induction xs) auto
  have "obj_set (obj_set ob k v) k v = map (\<lambda>kv. if fst kv = k then (k, v) else kv) (obj_set ob k v)"
    using k by (simp add: obj_set_def [of "obj_set ob k v"] in_keys_iff)
  also have "\<dots> = obj_set ob k v"
    using m [of ob] i [of ob] a [of ob] by (auto simp add: obj_set_def in_keys_iff)
  finally show ?thesis using k by simp
qed

lemma engagement_of_alt_set:
  "engagement_of_alt h (obj_set row ''engagement'' v) = engagement_of_alt h row"
  by (simp add: engagement_of_alt_def obj_get_obj_set)

lemma enrich_alt_idem: 
  "enrichWithEngagement_alt h (rows (enrichWithEngagement_alt h rs hs)) (headers (enrichWithEngagement_alt h rs hs))
     = enrichWithEngagement_alt h rs hs"
  by (auto simp add: enrichWithEngagement_alt_def engagement_of_alt_set obj_set_same)

lemma toFixed_num_near:
  assumes "\<bar>x\<bar> < 10 ^ 21"
  shows "\<bar>toFixed_num d x - x\<bar> \<le> 1 / (2 * 10 ^ d)"
proof -
  let ?n = "\<lfloor>\<bar>x\<bar> * 10 ^ d + 1 / 2\<rfloor>"
  have lo: "of_int ?n \<le> \<bar>x\<bar> * 10 ^ d + 1 / 2"
    and hi: "\<bar>x\<bar> * 10 ^ d + 1 / 2 < of_int ?n + 1"
    using floor_correct [of "\<bar>x\<bar> * 10 ^ d + 1 / 2"] by simp_all
  have p: "(0::real) < 10 ^ d" by simp
  have "\<bar>of_int ?n - \<bar>x\<bar> * 10 ^ d\<bar> \<le> 1 / 2" using lo hi by linarith
  then have "\<bar>of_int ?n / 10 ^ d - \<bar>x\<bar>\<bar> \<le> (1 / 2) / 10 ^ d"
    using p by (simp add: field_simps abs_le_iff)
  then have m: "\<bar>of_int ?n / 10 ^ d - \<bar>x\<bar>\<bar> \<le> 1 / (2 * 10 ^ d)" by simp
  have "toFixed_num d x - x = sgn x * (of_int ?n / 10 ^ d - \<bar>x\<bar>)"
    using assms by (simp add: toFixed_num_def algebra_simps sgn_real_def abs_real_def)
  then have "\<bar>toFixed_num d x - x\<bar> = \<bar>sgn x\<bar> * \<bar>of_int ?n / 10 ^ d - \<bar>x\<bar>\<bar>"
    by (simp add: abs_mult)
  also have "\<dots> \<le> \<bar>of_int ?n / 10 ^ d - \<bar>x\<bar>\<bar>"
    by (simp add: sgn_real_def)
  finally show ?thesis using m by linarith
qed


lemma find_Some_holds: "find P xs = Some x \<Longrightarrow> P x"
  by (induction xs) (auto split: if_splits)

lemma test_ci_nonempty: "test_ci ''likeCount'' x \<Longrightarrow> x \<noteq> []" "test_ci ''viewCount'' x \<Longrightarrow> x \<noteq> []"
  by (auto simp add: test_ci_def toLowerCase_def)

lemma enrich_unchanged:
  assumes "rs = [] \<or> find (test_ci ''likeCount'') hs = None \<or> find (test_ci ''viewCount'') hs = None \<or>
   ''engagement'' \<in> set hs"
  shows "enrichWithEngagement h rs hs = \<lparr>headers = hs, rows = rs\<rparr>"
proof (cases "rs = []")
  case True
  then show ?thesis by (simp add: enrichWithEngagement_def)
next
  case ne: False
  show ?thesis
  proof (cases "find (test_ci ''likeCount'') hs")
    case None
    then show ?thesis using ne by (simp add: enrichWithEngagement_def)
  next
    case l: (Some likeCol)
    show ?thesis
    proof (cases "find (test_ci ''viewCount'') hs")
      case None
      then show ?thesis using ne l by (simp add: enrichWithEngagement_def)
    next
      case v: (Some viewCol)
      then have "''engagement'' \<in> set hs" using assms ne l by simp
      then show ?thesis using ne l v by (simp add: enrichWithEngagement_def)
    qed
  qed
qed


lemma enrich_added:
  assumes "rs \<noteq> []" and "find (test_ci ''likeCount'') hs = Some likeCol"
    and "find (test_ci ''viewCount'') hs = Some viewCol" and "''engagement'' \<notin> set hs"
  shows "enrichWithEngagement h rs hs
           = \<lparr>headers = hs @ [''engagement''],
              rows = map (\<lambda>r. obj_set r ''engagement'' (engagement_of h likeCol viewCol r)) rs\<rparr>"
proof -
  have "test_ci ''likeCount'' likeCol" using assms(2) by (rule find_Some_holds)
  then have l: "likeCol \<noteq> []" by (rule test_ci_nonempty)
  have "test_ci ''viewCount'' viewCol" using assms(3) by (rule find_Some_holds)
  then have v: "viewCol \<noteq> []" by (rule test_ci_nonempty)
  show ?thesis using assms l v by (simp add: enrichWithEngagement_def)
qed

lemma enrich_headers_count:
  "count_list (headers (enrichWithEngagement h rs hs)) ''engagement'' \<le> max 1 (count_list hs ''engagement'')"
proof (cases "rs = [] \<or> find (test_ci ''likeCount'') hs = None \<or> find (test_ci ''viewCount'') hs = None \<or>
   ''engagement'' \<in> set hs")
  case True
  have "enrichWithEngagement h rs hs = \<lparr>headers = hs, rows = rs\<rparr>"
    using True by (rule enrich_unchanged)
  then show ?thesis by simp
next
  case False
  then obtain likeCol viewCol where lv: "find (test_ci ''likeCount'') hs = Some likeCol"
    "find (test_ci ''viewCount'') hs = Some viewCol" by auto
  have ne: "rs \<noteq> []" and nin: "''engagement'' \<notin> set hs" using False by simp_all
  have c: "count_list hs ''engagement'' = 0" using nin by (simp add: count_list_0_iff)
  have "headers (enrichWithEngagement h rs hs) = hs @ [''engagement'']"
    using enrich_added [OF ne lv nin, of h] by simp
  then show ?thesis using c by simp
qed








section \<open>Properties of the column statistics\<close>

lemma foldl_plus_sum: "foldl (+) a (xs :: real list) = a + sum_list xs"
  by (induction xs arbitrary: a) simp_all

lemma foldl_sq_sum: "foldl (\<lambda>a b. a + (b - m) ^ 2) a (xs :: real list) = a + (\<Sum>b\<leftarrow>xs. (b - m) ^ 2)"
  by (induction xs arbitrary: a) simp_all

lemma foldl_min_Min: "foldl min a (xs :: real list) = Min (insert a (set xs))"
proof (induction xs arbitrary: a)
  case Nil
  then show ?case by simp
next
  case (Cons x xs)
  have "Min (insert (min a x) (set xs)) = Min (insert a (insert x (set xs)))"
    by (cases "set xs = {}") (simp_all add: min.assoc)
  then show ?case using Cons by simp
qed

lemma foldl_max_Max: "foldl max a (xs :: real list) = Max (insert a (set xs))"
proof (induction xs arbitrary: a)
  case Nil
  then show ?case by simp
next
  case (Cons x xs)
  have "Max (insert (max a x) (set xs)) = Max (insert a (insert x (set xs)))"
    by (cases "set xs = {}") (simp_all add: max.assoc)
  then show ?case using Cons by simp
qed

lemma fmt_5_2: "fmt (5 / 2) = 5 / 2"
proof -
  have "\<lfloor>(25000::real) + 1 / 2\<rfloor> = 25000" by linarith
  then show ?thesis by (simp add: fmt_def toFixed_num_def)
qed

lemma sqrt_5_4_bounds: "111795 / 100000 \<le> sqrt (5 / 4)" "sqrt (5 / 4) < 111805 / 100000"
proof -
  have "(111795 / 100000 :: real)\<^sup>2 \<le> 5 / 4" by (simp add: power2_eq_square)
  then show "111795 / 100000 \<le> sqrt (5 / 4)" by (rule real_le_rsqrt)
  have "(5 / 4 :: real) < (111805 / 100000)\<^sup>2" by (simp add: power2_eq_square)
  then show "sqrt (5 / 4) < 111805 / 100000" by (intro real_less_lsqrt) simp_all
qed

lemma fmt_sqrt_5_4: "fmt (math_sqrt (5 / 4)) = 1118 / 1000"
proof -
  note b = sqrt_5_4_bounds
  have f: "\<lfloor>sqrt (5 / 4) * 10 ^ 4 + 1 / 2\<rfloor> = 11180"
    using b by (intro floor_unique) simp_all
  have pos: "0 < sqrt (5 / 4)" by simp
  have small: "\<not> 10 ^ 21 \<le> \<bar>sqrt (5 / 4)\<bar>" using b by simp
  show ?thesis
    using f pos small by (simp add: fmt_def toFixed_num_def math_sqrt_def)
qed

lemma math_round_sqrt_5_4: "math_round (math_sqrt (5 / 4) * 100) / 100 = 112 / 100"
proof -
  note b = sqrt_5_4_bounds
  have f: "\<lfloor>sqrt (5 / 4) * 100 + 1 / 2\<rfloor> = 112"
    using b by (intro floor_unique) simp_all
  show ?thesis using f by (simp add: math_round_def math_sqrt_def)
qed


lemma column_stats_general:
  assumes "resolveCol rs name = Inr col" and "numericValues h rs col = vals" and "vals \<noteq> []"
  shows "column_stats h label rs hs name =
           Inr (JObj [(label, col),
                      (''count'', JNum (real (length vals))),
                      (''mean'', JNum (fmt (sum_list vals / real (length vals)))),
                      (''median'', JNum (fmt (median (sort vals)))),
                      (''std'', JNum (fmt (math_sqrt ((\<Sum>b\<leftarrow>vals. (b - sum_list vals / real (length vals)) ^ 2)
                                                      / real (length vals))))),
                      (''min'', JNum (Min (set vals))),
                      (''max'', JNum (Max (set vals)))])"
proof -
  obtain v vs where vals: "vals = v # vs" using assms(3) by (cases vals) auto
  have mn: "foldl min (hd vals) (tl vals) = Min (set vals)"
    and mx: "foldl max (hd vals) (tl vals) = Max (set vals)"
    by (simp_all add: vals foldl_min_Min foldl_max_Max)
  show ?thesis
    using assms mn mx
    by (simp add: column_stats_def Let_def foldl_plus_sum foldl_sq_sum)
qed

lemma column_stats_none:
  assumes "resolveCol rs name = Inr col" and "numericValues h rs col = []"
  shows "column_stats h label rs hs name =
           Inr (JObj [(''error'', JStr (''No numeric values found in '' @ label @ '' '' @ [CHR 0x22]
                        @ to_string h col @ [CHR 0x22] @ ''. Available columns: '' @ join '', '' hs))])"
  using assms by (simp add: column_stats_def Let_def)

lemma executeTool_stats:
  "executeTool h ''compute_column_stats'' (JObj a) (RowArray rs) context
     = column_stats h ''column'' rs (if rs = [] then [] else keys (hd rs)) (obj_get a ''column'')"
  "executeTool h ''compute_stats_json'' (JObj a) (RowArray rs) context
     = column_stats h ''field'' rs (if rs = [] then [] else keys (hd rs)) (obj_get a ''field'')"
  by (simp_all add: executeTool_def with_args_def tool_args_def Let_def)

lemma stats_1234:
  assumes "resolveCol rs name = Inr col" and "numericValues h rs col = [1, 2, 3, 4]"
  shows "column_stats h label rs hs name =
           Inr (JObj [(label, col), (''count'', JNum 4), (''mean'', JNum (5 / 2)),
                      (''median'', JNum (5 / 2)), (''std'', JNum (1118 / 1000)),
                      (''min'', JNum 1), (''max'', JNum 4)])"
proof -
  have s: "sort [1, 2, 3, 4 :: real] = [1, 2, 3, 4]" by simp
  have m: "median [1, 2, 3, 4] = 5 / 2" by (simp add: median_def)
  have v: "(\<Sum>b\<leftarrow>[1, 2, 3, 4 :: real]. (b - 5 / 2) ^ 2) / 4 = 5 / 4"
    by (simp add: power2_eq_square)
  have g: "column_stats h label rs hs name =
           Inr (JObj [(label, col),
                      (''count'', JNum (real (length [1, 2, 3, 4 :: real]))),
                      (''mean'', JNum (fmt (sum_list [1, 2, 3, 4] / real (length [1, 2, 3, 4 :: real])))),
                      (''median'', JNum (fmt (median (sort [1, 2, 3, 4])))),
                      (''std'', JNum (fmt (math_sqrt ((\<Sum>b\<leftarrow>[1, 2, 3, 4]. (b - sum_list [1, 2, 3, 4] / real (length [1, 2, 3, 4 :: real])) ^ 2)
                                                      / real (length [1, 2, 3, 4 :: real]))))),
                      (''min'', JNum (Min (set [1, 2, 3, 4]))),
                      (''max'', JNum (Max (set [1, 2, 3, 4])))])"
    using assms by (intro column_stats_general) simp_all
  have mean: "sum_list [1, 2, 3, 4 :: real] / 4 = 5 / 2" by simp
  have cnt: "real (length [1, 2, 3, 4 :: real]) = 4" by simp
  have mn: "Min (set [1, 2, 3, 4 :: real]) = 1" and mx: "Max (set [1, 2, 3, 4 :: real]) = 4" by simp_all
  show ?thesis
    by (simp only: g cnt mean v s m mn mx fmt_5_2 fmt_sqrt_5_4)
qed




lemma stats_alt_1234:
  assumes "get_prop args ''field'' = Inr f"
    and "stat_field (toLowerCase (to_string h (js_or f (JStr ''viewCount'')))) = sf"
    and "sort (List.map_filter (\<lambda>r. parseFloat h (obj_get r sf)) rs) = [1, 2, 3, 4]"
  shows "compute_stats_json_alt h args rs =
           Inr (JObj [(''field'', JStr sf), (''count'', JNum 4), (''mean'', JNum (5 / 2)),
                      (''median'', JNum (5 / 2)), (''std'', JNum (112 / 100)),
                      (''min'', JNum 1), (''max'', JNum 4)])"
proof -
  have m: "median [1, 2, 3, 4] = 5 / 2" by (simp add: median_def)
  have r: "math_round (5 / 2 * 100) / 100 = 5 / 2"
  proof -
    have "\<lfloor>(250::real) + 1 / 2\<rfloor> = 250" by linarith
    then show ?thesis by (simp add: math_round_def)
  qed
  have v: "foldl (\<lambda>acc val. acc + (val - 5 / 2) ^ 2) 0 [1, 2, 3, 4 :: real] / 4 = 5 / 4"
    by (simp add: power2_eq_square)
  have mean: "foldl (+) 0 [1, 2, 3, 4 :: real] / 4 = 5 / 2" by simp
  have cnt: "real (length [1, 2, 3, 4 :: real]) = 4" by simp
  have g: "compute_stats_json_alt h args rs =
      Inr (JObj [(''field'', JStr sf),
                 (''count'', JNum (real (length [1, 2, 3, 4 :: real]))),
                 (''mean'', JNum (math_round (foldl (+) 0 [1, 2, 3, 4 :: real] / real (length [1, 2, 3, 4 :: real]) * 100) / 100)),
                 (''median'', JNum (median [1, 2, 3, 4])),
                 (''std'', JNum (math_round (math_sqrt (foldl (\<lambda>acc val. acc + (val - foldl (+) 0 [1, 2, 3, 4 :: real] / real (length [1, 2, 3, 4 :: real])) ^ 2) 0 [1, 2, 3, 4 :: real] / real (length [1, 2, 3, 4 :: real])) * 100) / 100)),
                 (''min'', JNum (hd [1, 2, 3, 4])),
                 (''max'', JNum (last [1, 2, 3, 4]))])"
    using assms by (simp add: compute_stats_json_alt_def Let_def del: foldl.simps foldl_Cons foldl_Nil)
  have h: "hd [1, 2, 3, 4 :: real] = 1" "last [1, 2, 3, 4 :: real] = 4" by simp_all
  show ?thesis
    by (simp only: g mean cnt v m r h math_round_sqrt_5_4)
qed



section \<open>Properties of executeTool\<close>

lemma error_object_ok [simp]: "is_error_object [(''error'', JStr m)]"
  by (simp add: is_error_object_def)

lemma play_result_ok: "plain_or_error (play_result h rs a tc uc th b)"
  by (cases b) (simp_all add: play_result_def Let_def)

lemma play_video_ok:
  assumes "string_or_falsy (obj_get a ''title'')"
  shows "\<exists>v. play_video h rs hs a = Inr v \<and> plain_or_error v"
proof -
  obtain t where t: "js_or (obj_get a ''title'') (JStr []) = JStr t"
  proof (cases "truthy (obj_get a ''title'')")
    case True
    then show ?thesis using assms that by (cases "obj_get a ''title''") (simp_all add: js_or_def)
  next
    case False
    then show ?thesis using that by (simp add: js_or_def)
  qed
  show ?thesis
  proof (cases "find (eq_ci ''title'') hs")
    case None
    then show ?thesis using t by (simp add: play_video_def Let_def)
  next
    case tc: (Some tc)
    show ?thesis
    proof (cases "find (eq_ci ''videoUrl'') hs")
      case None
      then show ?thesis using t tc by (simp add: play_video_def Let_def)
    next
      case (Some uc)
      then show ?thesis using t tc play_result_ok by (simp add: play_video_def Let_def)
    qed
  qed
qed


lemma resolveCol_ok: "string_or_falsy name \<Longrightarrow> \<exists>c. resolveCol rs name = Inr c"
  by (cases name) (auto simp add: resolveCol_def split: option.splits)

lemma column_stats_ok:
  assumes "string_or_falsy name" and "label \<noteq> ''error''"
  shows "\<exists>v. column_stats h label rs hs name = Inr v \<and> plain_or_error v"
proof -
  obtain c where c: "resolveCol rs name = Inr c" using resolveCol_ok [OF assms(1)] by blast
  show ?thesis
  proof (cases "numericValues h rs c = []")
    case True
    then show ?thesis using c by (simp add: column_stats_def Let_def)
  next
    case False
    then show ?thesis using c assms(2) by (simp add: column_stats_def Let_def)
  qed
qed

lemma get_value_counts_ok:
  assumes "string_or_falsy (obj_get a ''column'')"
  shows "\<exists>v. get_value_counts h rs a = Inr v \<and> plain_or_error v"
proof -
  obtain c where c: "resolveCol rs (obj_get a ''column'') = Inr c"
    using resolveCol_ok [OF assms] by blast
  show ?thesis using c by (simp add: get_value_counts_def Let_def)
qed

lemma get_top_items_ok:
  assumes "string_or_falsy (obj_get a ''sort_column'')"
  shows "\<exists>v. get_top_items h rs hs a = Inr v \<and> plain_or_error v"
proof -
  obtain c where c: "resolveCol rs (obj_get a ''sort_column'') = Inr c"
    using resolveCol_ok [OF assms] by blast
  show ?thesis using c by (simp add: get_top_items_def Let_def)
qed

lemma plot_metric_vs_time_ok:
  assumes "string_or_falsy (obj_get a ''metric'')" and "string_or_falsy (obj_get a ''time_column'')"
  shows "\<exists>v. plot_metric_vs_time h rs hs a = Inr v \<and> plain_or_error v"
proof -
  obtain c where c: "resolveCol rs (obj_get a ''metric'') = Inr c"
    using resolveCol_ok [OF assms(1)] by blast
  obtain d where d: "resolveCol rs (obj_get a ''time_column'') = Inr d"
    using resolveCol_ok [OF assms(2)] by blast
  show ?thesis using c d by (simp add: plot_metric_vs_time_def Let_def)
qed


lemma generateImage_settled_ok: "plain_or_error (generateImage_settled p an outcome)"
proof (cases outcome)
  case (NetworkError e)
  then show ?thesis by (simp add: generateImage_settled_def Let_def)
next
  case (HttpJson ok body)
  show ?thesis
  proof (cases body)
    case (Inl e)
    then show ?thesis using HttpJson by (simp add: generateImage_settled_def Let_def)
  next
    case (Inr data)
    show ?thesis
    proof (cases "get_prop data ''mimeType''")
      case (Inl e)
      then show ?thesis using HttpJson Inr by (simp add: generateImage_settled_def Let_def)
    next
      case r: (Inr m)
      then show ?thesis using HttpJson Inr by (simp add: generateImage_settled_def Let_def)
    qed
  qed
qed

lemma generateImage_ok: "plain_or_error (generateImage h a c)"
  using generateImage_settled_ok by (simp add: generateImage_def Let_def)


lemma with_args_object: "with_args (JObj a) f = f a"
  by (simp add: with_args_def tool_args_def)

lemma executeTool_unknown:
  "toolName \<notin> set known_tools \<Longrightarrow>
   executeTool h toolName args rs context = Inr (JObj [(''error'', JStr (''Unknown tool: '' @ toolName))])"
  by (simp add: executeTool_def known_tools_def Let_def)





end
